theory Spec2Isabelle
  imports Main "HOL-Library.Monad_Syntax" "HOL-Library.Signed_Division"
begin

section \<open>Value types (Types.hpp, Move.hpp)\<close>

definition kBoardSize :: int where
  "kBoardSize = 8"

datatype Color = White | Black

datatype PieceType = Pawn | Knight | Bishop | Rook | Queen | King

text \<open>A square is a pair of C++ ints; rank 0 is Black's back rank, rank 7 White's,
  file 0 the a-file. All coordinates that occur stay far inside the range of a 32-bit
  int, so they are modelled as unbounded integers.\<close>

record Square =
  rank :: int
  "file" :: int

record Piece =
  type :: PieceType
  color :: Color

record Move =
  "from" :: Square
  "to" :: Square
  promotion :: "PieceType option"
  en_passant :: bool
  castling :: bool

definition isValidSquare :: "int \<Rightarrow> int \<Rightarrow> bool" where
  "isValidSquare r f = (r \<ge> 0 \<and> r < kBoardSize \<and> f \<ge> 0 \<and> f < kBoardSize)"

definition isValid :: "Square \<Rightarrow> bool" where
  "isValid sq = (rank sq \<ge> 0 \<and> rank sq < kBoardSize \<and> file sq \<ge> 0 \<and> file sq < kBoardSize)"

definition opponent :: "Color \<Rightarrow> Color" where
  "opponent c = (if c = White then Black else White)"

text \<open>\<open>Move{.from = a, .to = b}\<close>: the remaining members take their default
  initialisers.\<close>

definition plainMove :: "Square \<Rightarrow> Square \<Rightarrow> Move" where
  "plainMove a b = \<lparr>from = a, to = b, promotion = None, en_passant = False, castling = False\<rparr>"

section \<open>Board (Board.hpp, Board.cpp)\<close>

text \<open>\<open>grid_[rank][file]\<close> is \<open>b (rank, file)\<close>. The array has the cells 0..7 x 0..7
  only; the model's grid is a function of a pair of integers, and every cell outside the
  array is one the C++ code may not touch (\<open>Board::at\<close> requires a valid square, and
  reading or writing the array outside its bounds is undefined). The generators build
  every square they read or write from a square of the board and test it with
  \<open>isValid\<close>; the one exception is the last move handed to \<open>legalMoves\<close>, whose squares
  are read as given. In a session the last move is a move that \<open>legalMoves\<close> returned.\<close>

type_synonym Board = "int \<times> int \<Rightarrow> Piece option"

text \<open>The assignment \<open>grid_[r][f] = p\<close>.\<close>

definition put :: "Board \<Rightarrow> int \<Rightarrow> int \<Rightarrow> Piece option \<Rightarrow> Board" where
  "put b r f p = b((r, f) := p)"

definition at :: "Board \<Rightarrow> Square \<Rightarrow> Piece option" where
  "at b sq = b (rank sq, file sq)"

definition hasPieceAt :: "Board \<Rightarrow> Square \<Rightarrow> bool" where
  "hasPieceAt b sq = (isValid sq \<and> b (rank sq, file sq) \<noteq> None)"

definition hasPieceAtColor :: "Board \<Rightarrow> Square \<Rightarrow> Color \<Rightarrow> bool" where
  "hasPieceAtColor b sq c =
     (if \<not> isValid sq then False
      else (case b (rank sq, file sq) of None \<Rightarrow> False | Some piece \<Rightarrow> color piece = c))"

definition movePiece :: "Board \<Rightarrow> Move \<Rightarrow> Board" where
  "movePiece b move =
     (let b1 = put b (rank (to move)) (file (to move)) (b (rank (from move), file (from move)))
      in put b1 (rank (from move)) (file (from move)) None)"

definition setPiece :: "Board \<Rightarrow> Square \<Rightarrow> Piece option \<Rightarrow> Board" where
  "setPiece b sq piece = (if isValid sq then put b (rank sq) (file sq) piece else b)"

definition clearSquare :: "Board \<Rightarrow> Square \<Rightarrow> Board" where
  "clearSquare b sq = setPiece b sq None"

definition clear :: "Board \<Rightarrow> Board" where
  "clear b = (\<lambda>cell. None)"

definition kBackRankOrder :: "PieceType list" where
  "kBackRankOrder = [Rook, Knight, Bishop, Queen, King, Bishop, Knight, Rook]"

text \<open>The values of a loop \<open>for (int i = 0; i < kSize; ++i)\<close>, in order.\<close>

definition indices :: "int list" where
  "indices = [0..kBoardSize - 1]"

definition setupInitialPosition :: "Board \<Rightarrow> Board" where
  "setupInitialPosition b =
     (let b1 = fold (\<lambda>f g. put (put g 0 f (Some \<lparr>type = kBackRankOrder ! nat f, color = Black\<rparr>))
                              1 f (Some \<lparr>type = Pawn, color = Black\<rparr>)) indices b
      in fold (\<lambda>f g. put (put g 6 f (Some \<lparr>type = Pawn, color = White\<rparr>))
                         7 f (Some \<lparr>type = kBackRankOrder ! nat f, color = White\<rparr>)) indices b1)"

definition reset :: "Board \<Rightarrow> Board" where
  "reset b = setupInitialPosition (clear b)"

section \<open>Rules (Rules.cpp): attack detection\<close>

definition kKnightMoves :: "(int \<times> int) list" where
  "kKnightMoves = [(-2, -1), (-2, 1), (-1, -2), (-1, 2), (1, -2), (1, 2), (2, -1), (2, 1)]"

definition kRookDirections :: "(int \<times> int) list" where
  "kRookDirections = [(-1, 0), (1, 0), (0, -1), (0, 1)]"

definition kBishopDirections :: "(int \<times> int) list" where
  "kBishopDirections = [(-1, -1), (-1, 1), (1, -1), (1, 1)]"

definition kAllDirections :: "(int \<times> int) list" where
  "kAllDirections = [(-1, 0), (1, 0), (0, -1), (0, 1), (-1, -1), (-1, 1), (1, -1), (1, 1)]"

text \<open>\<open>piece && piece->type == t && piece->color == c\<close>.\<close>

definition pieceIs :: "Piece option \<Rightarrow> PieceType \<Rightarrow> Color \<Rightarrow> bool" where
  "pieceIs piece t c = (case piece of None \<Rightarrow> False | Some p \<Rightarrow> type p = t \<and> color p = c)"

text \<open>The squares of the two nested loops over rank and file, rank-major.\<close>

definition allSquares :: "Square list" where
  "allSquares = concat (map (\<lambda>r. map (\<lambda>f. \<lparr>rank = r, file = f\<rparr>) indices) indices)"

definition findKing :: "Board \<Rightarrow> Color \<Rightarrow> Square option" where
  "findKing b side = find (\<lambda>sq. pieceIs (at b sq) King side) allSquares"

definition isAttackedByPawn :: "Board \<Rightarrow> Square \<Rightarrow> Color \<Rightarrow> bool" where
  "isAttackedByPawn b target attacker =
     (let pawn_direction = (if attacker = White then -1 else 1);
          offsets = [(pawn_direction, -1), (pawn_direction, 1)]
      in list_ex (\<lambda>(dr, df).
           let sq = \<lparr>rank = rank target + dr, file = file target + df\<rparr>
           in isValid sq \<and> pieceIs (at b sq) Pawn attacker) offsets)"

definition isAttackedByKnight :: "Board \<Rightarrow> Square \<Rightarrow> Color \<Rightarrow> bool" where
  "isAttackedByKnight b target attacker =
     list_ex (\<lambda>(dr, df).
       let sq = \<lparr>rank = rank target + dr, file = file target + df\<rparr>
       in isValid sq \<and> pieceIs (at b sq) Knight attacker) kKnightMoves"

text \<open>The \<open>while\<close> loop of \<open>isAttackedBySlider\<close> for one direction. \<open>Some True\<close> is
  the loop's \<open>return true\<close>, \<open>Some False\<close> its end (at the edge of the board or at the
  first piece met), and \<open>None\<close> a loop that never ends.\<close>

partial_function (option) sliderWalk ::
  "Board \<Rightarrow> Color \<Rightarrow> bool \<Rightarrow> int \<Rightarrow> int \<Rightarrow> int \<Rightarrow> int \<Rightarrow> int \<Rightarrow> bool option" where
  "sliderWalk b attacker is_diagonal dr df r f distance =
     (if isValidSquare r f then
        (case at b \<lparr>rank = r, file = f\<rparr> of
           Some piece \<Rightarrow>
             Some (if color piece = attacker then
                     (if distance = 1 \<and> type piece = King then True
                      else if \<not> is_diagonal \<and> (type piece = Rook \<or> type piece = Queen) then True
                      else if is_diagonal \<and> (type piece = Bishop \<or> type piece = Queen) then True
                      else False)
                   else False)
         | None \<Rightarrow> sliderWalk b attacker is_diagonal dr df (r + dr) (f + df) (distance + 1))
      else Some False)"

declare sliderWalk.simps [code]

fun sliderDirections :: "Board \<Rightarrow> Square \<Rightarrow> Color \<Rightarrow> nat list \<Rightarrow> bool option" where
  "sliderDirections b target attacker [] = Some False"
| "sliderDirections b target attacker (i # rest) =
     (case kAllDirections ! i of (dr, df) \<Rightarrow>
        Option.bind (sliderWalk b attacker (i \<ge> 4) dr df (rank target + dr) (file target + df) 1)
          (\<lambda>hit. if hit then Some True else sliderDirections b target attacker rest))"

definition isAttackedBySlider :: "Board \<Rightarrow> Square \<Rightarrow> Color \<Rightarrow> bool option" where
  "isAttackedBySlider b target attacker =
     sliderDirections b target attacker [0..<length kAllDirections]"

definition isSquareAttacked :: "Board \<Rightarrow> Square \<Rightarrow> Color \<Rightarrow> bool option" where
  "isSquareAttacked b target attacker =
     (if isAttackedByPawn b target attacker then Some True
      else if isAttackedByKnight b target attacker then Some True
      else isAttackedBySlider b target attacker)"

section \<open>Rules: move generation\<close>

definition isMoveLegal :: "Board \<Rightarrow> Move \<Rightarrow> Color \<Rightarrow> bool option" where
  "isMoveLegal b move side =
     (let copy0 = movePiece b move;
          copy = (if en_passant move
                  then clearSquare copy0 \<lparr>rank = rank (from move), file = file (to move)\<rparr>
                  else copy0)
      in case findKing copy side of
           None \<Rightarrow> Some False
         | Some king_sq \<Rightarrow> map_option Not (isSquareAttacked copy king_sq (opponent side)))"

text \<open>\<open>if (isMoveLegal(board, move, side)) moves.push_back(move)\<close>.\<close>

definition pushIfLegal :: "Move list \<Rightarrow> Board \<Rightarrow> Move \<Rightarrow> Color \<Rightarrow> Move list option" where
  "pushIfLegal moves b move side =
     Option.bind (isMoveLegal b move side) (\<lambda>ok. Some (if ok then moves @ [move] else moves))"

definition addMoveIfLegal ::
  "Move list \<Rightarrow> Board \<Rightarrow> Square \<Rightarrow> Square \<Rightarrow> Color \<Rightarrow> Move list option" where
  "addMoveIfLegal moves b fromSq toSq side = pushIfLegal moves b (plainMove fromSq toSq) side"

text \<open>\<open>generatePawnMoves\<close>, in its three parts: pushes, captures, en passant.\<close>

definition pawnPushes ::
  "Move list \<Rightarrow> Board \<Rightarrow> Square \<Rightarrow> Color \<Rightarrow> Move list option" where
  "pawnPushes moves b fromSq side =
     (let forward = (if side = White then -1 else 1);
          start_rank = (if side = White then 6 else 1);
          one = \<lparr>rank = rank fromSq + forward, file = file fromSq\<rparr>;
          two = \<lparr>rank = rank fromSq + 2 * forward, file = file fromSq\<rparr>
      in if isValid one \<and> \<not> hasPieceAt b one then
           Option.bind (addMoveIfLegal moves b fromSq one side)
             (\<lambda>moves1. if rank fromSq = start_rank \<and> isValid two \<and> \<not> hasPieceAt b two
                        then addMoveIfLegal moves1 b fromSq two side
                        else Some moves1)
         else Some moves)"

fun pawnCaptures ::
  "Move list \<Rightarrow> Board \<Rightarrow> Square \<Rightarrow> Color \<Rightarrow> int list \<Rightarrow> Move list option" where
  "pawnCaptures moves b fromSq side [] = Some moves"
| "pawnCaptures moves b fromSq side (df # rest) =
     (let forward = (if side = White then -1 else 1);
          cap = \<lparr>rank = rank fromSq + forward, file = file fromSq + df\<rparr>
      in if \<not> isValid cap then pawnCaptures moves b fromSq side rest
         else if hasPieceAtColor b cap (opponent side) then
           Option.bind (addMoveIfLegal moves b fromSq cap side)
             (\<lambda>moves1. pawnCaptures moves1 b fromSq side rest)
         else pawnCaptures moves b fromSq side rest)"

definition pawnEnPassant ::
  "Move list \<Rightarrow> Board \<Rightarrow> Square \<Rightarrow> Color \<Rightarrow> Move option \<Rightarrow> Move list option" where
  "pawnEnPassant moves b fromSq side last_move =
     (case last_move of
        None \<Rightarrow> Some moves
      | Some lm \<Rightarrow>
          (case at b (to lm) of
             None \<Rightarrow> Some moves
           | Some moved_piece \<Rightarrow>
               if type moved_piece = Pawn \<and> color moved_piece = opponent side \<and>
                  abs (rank (from lm) - rank (to lm)) = 2 then
                 (if rank fromSq = rank (to lm) \<and> abs (file fromSq - file (to lm)) = 1 then
                    (let passed_rank = (rank (from lm) + rank (to lm)) sdiv 2;
                         ep_move = \<lparr>from = fromSq,
                                    to = \<lparr>rank = passed_rank, file = file (to lm)\<rparr>,
                                    promotion = None, en_passant = True, castling = False\<rparr>
                     in pushIfLegal moves b ep_move side)
                  else Some moves)
               else Some moves))"

definition generatePawnMoves ::
  "Move list \<Rightarrow> Board \<Rightarrow> Square \<Rightarrow> Color \<Rightarrow> Move option \<Rightarrow> Move list option" where
  "generatePawnMoves moves b fromSq side last_move =
     Option.bind (pawnPushes moves b fromSq side)
       (\<lambda>moves1. Option.bind (pawnCaptures moves1 b fromSq side [-1, 1])
          (\<lambda>moves2. pawnEnPassant moves2 b fromSq side last_move))"

text \<open>The body shared by the knight's loop and the king's loop over offsets: skip a
  target off the board or held by a friendly piece, else \<open>addMoveIfLegal\<close>.\<close>

definition stepMove ::
  "Move list \<Rightarrow> Board \<Rightarrow> Square \<Rightarrow> Color \<Rightarrow> int \<Rightarrow> int \<Rightarrow> Move list option" where
  "stepMove moves b fromSq side dr df =
     (let toSq = \<lparr>rank = rank fromSq + dr, file = file fromSq + df\<rparr>
      in if \<not> isValid toSq then Some moves
         else if hasPieceAtColor b toSq side then Some moves
         else addMoveIfLegal moves b fromSq toSq side)"

fun generateKnightMoves_loop ::
  "Move list \<Rightarrow> Board \<Rightarrow> Square \<Rightarrow> Color \<Rightarrow> (int \<times> int) list \<Rightarrow> Move list option" where
  "generateKnightMoves_loop moves b fromSq side [] = Some moves"
| "generateKnightMoves_loop moves b fromSq side ((dr, df) # rest) =
     Option.bind (stepMove moves b fromSq side dr df)
       (\<lambda>moves1. generateKnightMoves_loop moves1 b fromSq side rest)"

definition generateKnightMoves ::
  "Move list \<Rightarrow> Board \<Rightarrow> Square \<Rightarrow> Color \<Rightarrow> Move list option" where
  "generateKnightMoves moves b fromSq side =
     generateKnightMoves_loop moves b fromSq side kKnightMoves"

text \<open>The \<open>while\<close> loop of \<open>generateSlidingMoves\<close> for one direction; \<open>None\<close> is a
  loop that never ends.\<close>

partial_function (option) slideRay ::
  "Move list \<Rightarrow> Board \<Rightarrow> Square \<Rightarrow> Color \<Rightarrow> int \<Rightarrow> int \<Rightarrow> int \<Rightarrow> int \<Rightarrow> Move list option" where
  "slideRay moves b fromSq side dr df r f =
     (if isValidSquare r f then
        (case at b \<lparr>rank = r, file = f\<rparr> of
           Some dest \<Rightarrow>
             (if color dest \<noteq> side
              then addMoveIfLegal moves b fromSq \<lparr>rank = r, file = f\<rparr> side
              else Some moves)
         | None \<Rightarrow>
             Option.bind (addMoveIfLegal moves b fromSq \<lparr>rank = r, file = f\<rparr> side)
               (\<lambda>moves1. slideRay moves1 b fromSq side dr df (r + dr) (f + df)))
      else Some moves)"

declare slideRay.simps [code]

fun generateSlidingMoves ::
  "Move list \<Rightarrow> Board \<Rightarrow> Square \<Rightarrow> Color \<Rightarrow> (int \<times> int) list \<Rightarrow> Move list option" where
  "generateSlidingMoves moves b fromSq side [] = Some moves"
| "generateSlidingMoves moves b fromSq side ((dr, df) # rest) =
     Option.bind (slideRay moves b fromSq side dr df (rank fromSq + dr) (file fromSq + df))
       (\<lambda>moves1. generateSlidingMoves moves1 b fromSq side rest)"

text \<open>\<open>std::array<bool, 4>\<close> with the documented order of indices
  [WhiteKingside, WhiteQueenside, BlackKingside, BlackQueenside]: index 0 is
  \<open>white_kingside\<close>, 1 \<open>white_queenside\<close>, 2 \<open>black_kingside\<close>, 3 \<open>black_queenside\<close>.\<close>

record CastlingRights =
  white_kingside :: bool
  white_queenside :: bool
  black_kingside :: bool
  black_queenside :: bool

text \<open>The pairs (dr, df) of the king's two nested loops from -1 to 1, in order.\<close>

definition kingOffsets :: "(int \<times> int) list" where
  "kingOffsets = concat (map (\<lambda>dr. map (\<lambda>df. (dr, df)) [-1, 0, 1]) [-1, 0, 1])"

fun kingSteps ::
  "Move list \<Rightarrow> Board \<Rightarrow> Square \<Rightarrow> Color \<Rightarrow> (int \<times> int) list \<Rightarrow> Move list option" where
  "kingSteps moves b fromSq side [] = Some moves"
| "kingSteps moves b fromSq side ((dr, df) # rest) =
     (if dr = 0 \<and> df = 0 then kingSteps moves b fromSq side rest
      else Option.bind (stepMove moves b fromSq side dr df)
             (\<lambda>moves1. kingSteps moves1 b fromSq side rest))"

definition castleKingside ::
  "Move list \<Rightarrow> Board \<Rightarrow> Square \<Rightarrow> Color \<Rightarrow> int \<Rightarrow> Move list option" where
  "castleKingside moves b fromSq side home_rank =
     (if pieceIs (at b \<lparr>rank = home_rank, file = 7\<rparr>) Rook side then
        (if \<not> hasPieceAt b \<lparr>rank = home_rank, file = 5\<rparr> \<and>
            \<not> hasPieceAt b \<lparr>rank = home_rank, file = 6\<rparr> then
           Option.bind (isSquareAttacked b \<lparr>rank = home_rank, file = 5\<rparr> (opponent side))
             (\<lambda>a5. if a5 then Some moves
                else Option.bind (isSquareAttacked b \<lparr>rank = home_rank, file = 6\<rparr> (opponent side))
                  (\<lambda>a6. if a6 then Some moves
                     else pushIfLegal moves b
                            \<lparr>from = fromSq, to = \<lparr>rank = home_rank, file = 6\<rparr>,
                             promotion = None, en_passant = False, castling = True\<rparr> side))
         else Some moves)
      else Some moves)"

definition castleQueenside ::
  "Move list \<Rightarrow> Board \<Rightarrow> Square \<Rightarrow> Color \<Rightarrow> int \<Rightarrow> Move list option" where
  "castleQueenside moves b fromSq side home_rank =
     (if pieceIs (at b \<lparr>rank = home_rank, file = 0\<rparr>) Rook side then
        (if \<not> hasPieceAt b \<lparr>rank = home_rank, file = 1\<rparr> \<and>
            \<not> hasPieceAt b \<lparr>rank = home_rank, file = 2\<rparr> \<and>
            \<not> hasPieceAt b \<lparr>rank = home_rank, file = 3\<rparr> then
           Option.bind (isSquareAttacked b \<lparr>rank = home_rank, file = 2\<rparr> (opponent side))
             (\<lambda>a2. if a2 then Some moves
                else Option.bind (isSquareAttacked b \<lparr>rank = home_rank, file = 3\<rparr> (opponent side))
                  (\<lambda>a3. if a3 then Some moves
                     else pushIfLegal moves b
                            \<lparr>from = fromSq, to = \<lparr>rank = home_rank, file = 2\<rparr>,
                             promotion = None, en_passant = False, castling = True\<rparr> side))
         else Some moves)
      else Some moves)"

definition generateKingMoves ::
  "Move list \<Rightarrow> Board \<Rightarrow> Square \<Rightarrow> Color \<Rightarrow> CastlingRights \<Rightarrow> Move list option" where
  "generateKingMoves moves b fromSq side castling_rights =
     Option.bind (kingSteps moves b fromSq side kingOffsets)
       (\<lambda>moves1.
          let home_rank = (if side = White then 7 else 0);
              king_file = 4
          in if rank fromSq \<noteq> home_rank \<or> file fromSq \<noteq> king_file then Some moves1
             else Option.bind (isSquareAttacked b fromSq (opponent side))
               (\<lambda>in_check. if in_check then Some moves1
                  else
                    (let kingside = (if side = White then white_kingside castling_rights
                                     else black_kingside castling_rights);
                         queenside = (if side = White then white_queenside castling_rights
                                      else black_queenside castling_rights)
                     in Option.bind
                          (if kingside then castleKingside moves1 b fromSq side home_rank
                           else Some moves1)
                          (\<lambda>moves2. if queenside
                                     then castleQueenside moves2 b fromSq side home_rank
                                     else Some moves2))))"

text \<open>The body of the loop of \<open>Rules::legalMoves\<close> for one square, and the loop.\<close>

definition generateFor ::
  "Move list \<Rightarrow> Board \<Rightarrow> Color \<Rightarrow> Move option \<Rightarrow> CastlingRights \<Rightarrow> Square \<Rightarrow> Move list option" where
  "generateFor moves b side last_move castling_rights fromSq =
     (case at b fromSq of
        None \<Rightarrow> Some moves
      | Some piece \<Rightarrow>
          if color piece \<noteq> side then Some moves
          else (case type piece of
                  Pawn \<Rightarrow> generatePawnMoves moves b fromSq side last_move
                | Knight \<Rightarrow> generateKnightMoves moves b fromSq side
                | Bishop \<Rightarrow> generateSlidingMoves moves b fromSq side kBishopDirections
                | Rook \<Rightarrow> generateSlidingMoves moves b fromSq side kRookDirections
                | Queen \<Rightarrow> generateSlidingMoves moves b fromSq side kAllDirections
                | King \<Rightarrow> generateKingMoves moves b fromSq side castling_rights))"

fun legalMoves_loop ::
  "Move list \<Rightarrow> Board \<Rightarrow> Color \<Rightarrow> Move option \<Rightarrow> CastlingRights \<Rightarrow> Square list \<Rightarrow> Move list option" where
  "legalMoves_loop moves b side last_move castling_rights [] = Some moves"
| "legalMoves_loop moves b side last_move castling_rights (fromSq # rest) =
     Option.bind (generateFor moves b side last_move castling_rights fromSq)
       (\<lambda>moves1. legalMoves_loop moves1 b side last_move castling_rights rest)"

definition legalMoves ::
  "Board \<Rightarrow> Color \<Rightarrow> Move option \<Rightarrow> CastlingRights \<Rightarrow> Move list option" where
  "legalMoves b side last_move castling_rights =
     legalMoves_loop [] b side last_move castling_rights allSquares"

text \<open>\<open>king_sq && isSquareAttacked(...)\<close>: the right operand is evaluated only when a
  king was found.\<close>

definition isCheck :: "Board \<Rightarrow> Color \<Rightarrow> bool option" where
  "isCheck b side =
     (case findKing b side of
        None \<Rightarrow> Some False
      | Some king_sq \<Rightarrow> isSquareAttacked b king_sq (opponent side))"

definition isCheckmate ::
  "Board \<Rightarrow> Color \<Rightarrow> Move option \<Rightarrow> CastlingRights \<Rightarrow> bool option" where
  "isCheckmate b side last_move castling_rights =
     Option.bind (isCheck b side)
       (\<lambda>chk. if chk then map_option (\<lambda>ms. ms = []) (legalMoves b side last_move castling_rights)
               else Some False)"

definition isStalemate ::
  "Board \<Rightarrow> Color \<Rightarrow> Move option \<Rightarrow> CastlingRights \<Rightarrow> bool option" where
  "isStalemate b side last_move castling_rights =
     Option.bind (isCheck b side)
       (\<lambda>chk. if \<not> chk then map_option (\<lambda>ms. ms = []) (legalMoves b side last_move castling_rights)
               else Some False)"

section \<open>Game (ChessGame.hpp, ChessGame.cpp)\<close>

text \<open>The session's state, its members named without their trailing underscore; the
  member \<open>rules_\<close> has no state and is left out.\<close>

record ChessGame =
  board :: Board
  side_to_move :: Color
  last_move :: "Move option"
  castling_rights :: CastlingRights

definition newGame :: "ChessGame \<Rightarrow> ChessGame" where
  "newGame g =
     \<lparr>board = reset (board g), side_to_move = White, last_move = None,
      castling_rights = \<lparr>white_kingside = True, white_queenside = True,
                          black_kingside = True, black_queenside = True\<rparr>\<rparr>"

definition handleSpecialMoves :: "ChessGame \<Rightarrow> Move \<Rightarrow> ChessGame" where
  "handleSpecialMoves g move =
     (let b1 = (if en_passant move
                then clearSquare (board g) \<lparr>rank = rank (from move), file = file (to move)\<rparr>
                else board g);
          b2 = movePiece b1 move;
          rnk = rank (from move);
          b3 = (if castling move then
                  (if file (to move) = 6 then
                     movePiece b2 (plainMove \<lparr>rank = rnk, file = 7\<rparr> \<lparr>rank = rnk, file = 5\<rparr>)
                   else if file (to move) = 2 then
                     movePiece b2 (plainMove \<lparr>rank = rnk, file = 0\<rparr> \<lparr>rank = rnk, file = 3\<rparr>)
                   else b2)
                else b2)
      in g\<lparr>board := b3\<rparr>)"

definition revokeIfRookSquare :: "CastlingRights \<Rightarrow> Square \<Rightarrow> CastlingRights" where
  "revokeIfRookSquare cr sq =
     (if rank sq = 7 then
        (if file sq = 0 then cr\<lparr>white_queenside := False\<rparr>
         else if file sq = 7 then cr\<lparr>white_kingside := False\<rparr>
         else cr)
      else if rank sq = 0 then
        (if file sq = 0 then cr\<lparr>black_queenside := False\<rparr>
         else if file sq = 7 then cr\<lparr>black_kingside := False\<rparr>
         else cr)
      else cr)"

definition updateCastlingRights :: "ChessGame \<Rightarrow> Move \<Rightarrow> ChessGame" where
  "updateCastlingRights g move =
     (let piece = at (board g) (to move);
          cr0 = castling_rights g;
          cr1 = (case piece of
                   None \<Rightarrow> cr0
                 | Some p \<Rightarrow>
                     if type p = King then
                       (if side_to_move g = White
                        then cr0\<lparr>white_kingside := False, white_queenside := False\<rparr>
                        else cr0\<lparr>black_kingside := False, black_queenside := False\<rparr>)
                     else cr0);
          cr2 = revokeIfRookSquare cr1 (from move);
          cr3 = revokeIfRookSquare cr2 (to move)
      in g\<lparr>castling_rights := cr3\<rparr>)"

text \<open>\<open>makeMove\<close> returns its bool together with the session's state after the call.\<close>

definition makeMove :: "ChessGame \<Rightarrow> Move \<Rightarrow> (bool \<times> ChessGame) option" where
  "makeMove g move =
     Option.bind (legalMoves (board g) (side_to_move g) (last_move g) (castling_rights g))
       (\<lambda>moves.
          case find (\<lambda>m. from m = from move \<and> to m = to move) moves of
            None \<Rightarrow> Some (False, g)
          | Some legal_move \<Rightarrow>
              (let g1 = handleSpecialMoves g legal_move;
                   g2 = updateCastlingRights g1 legal_move;
                   g3 = g2\<lparr>last_move := Some legal_move\<rparr>
               in Some (True, g3\<lparr>side_to_move := opponent (side_to_move g3)\<rparr>)))"

text \<open>A client's sequence of \<open>makeMove\<close> calls on one session: the values the calls
  return, in order, and the session's state after the last call.\<close>

fun makeMoves :: "ChessGame \<Rightarrow> Move list \<Rightarrow> (bool list \<times> ChessGame) option" where
  "makeMoves g [] = Some ([], g)"
| "makeMoves g (move # rest) =
     Option.bind (makeMove g move)
       (\<lambda>(ok, g'). map_option (\<lambda>(oks, g''). (ok # oks, g'')) (makeMoves g' rest))"

text \<open>The states of a session: \<open>ChessGame()\<close> calls \<open>newGame\<close>, and the only mutators are
  \<open>newGame\<close> and \<open>makeMove\<close>.\<close>

inductive reachable :: "ChessGame \<Rightarrow> bool" where
  start: "reachable (newGame g)"
| step: "reachable g \<Longrightarrow> makeMove g move = Some (ok, g') \<Longrightarrow> reachable g'"

section \<open>Vocabulary of the properties\<close>

text \<open>The test \<open>piece && piece->type == PieceType::King\<close> of \<open>updateCastlingRights\<close>, on
  the board after the move.\<close>

definition kingArrived :: "ChessGame \<Rightarrow> Move \<Rightarrow> bool" where
  "kingArrived g m = (case at (board g) (to m) of None \<Rightarrow> False | Some p \<Rightarrow> type p = King)"

text \<open>The rights of one colour, as \<open>generateKingMoves\<close> reads them.\<close>

definition kingsideRight :: "Color \<Rightarrow> CastlingRights \<Rightarrow> bool" where
  "kingsideRight c cr = (if c = White then white_kingside cr else black_kingside cr)"

definition queensideRight :: "Color \<Rightarrow> CastlingRights \<Rightarrow> bool" where
  "queensideRight c cr = (if c = White then white_queenside cr else black_queenside cr)"

text \<open>The home rank of a colour, \<open>home_rank\<close> in \<open>generateKingMoves\<close>.\<close>

definition homeRank :: "Color \<Rightarrow> int" where
  "homeRank side = (if side = White then 7 else 0)"

text \<open>\<open>appended ms res R\<close>: the generator returned, and its result is \<open>ms\<close> followed by
  moves that all satisfy \<open>R\<close>.\<close>

definition appended :: "Move list \<Rightarrow> Move list option \<Rightarrow> (Move \<Rightarrow> bool) \<Rightarrow> bool" where
  "appended ms res R = (case res of None \<Rightarrow> False | Some ms' \<Rightarrow> (\<exists>new. ms' = ms @ new \<and> list_all R new))"

text \<open>The conditions under which the en-passant branch and the two castling branches push
  their move.\<close>

definition enPassantCondition :: "Board \<Rightarrow> Color \<Rightarrow> Move option \<Rightarrow> Square \<Rightarrow> Square \<Rightarrow> bool" where
  "enPassantCondition b side lmo fromSq toSq =
     (case lmo of
        None \<Rightarrow> False
      | Some lm \<Rightarrow>
          pieceIs (at b (to lm)) Pawn (opponent side) \<and>
          abs (rank (from lm) - rank (to lm)) = 2 \<and>
          rank fromSq = rank (to lm) \<and> abs (file fromSq - file (to lm)) = 1 \<and>
          file toSq = file (to lm) \<and>
          min (rank (from lm)) (rank (to lm)) < rank toSq \<and>
          rank toSq < max (rank (from lm)) (rank (to lm)))"

definition kingsideCondition :: "Board \<Rightarrow> Color \<Rightarrow> CastlingRights \<Rightarrow> bool" where
  "kingsideCondition b side cr =
     ((if side = White then white_kingside cr else black_kingside cr) \<and>
      pieceIs (at b \<lparr>rank = homeRank side, file = 4\<rparr>) King side \<and>
      isSquareAttacked b \<lparr>rank = homeRank side, file = 4\<rparr> (opponent side) = Some False \<and>
      pieceIs (at b \<lparr>rank = homeRank side, file = 7\<rparr>) Rook side \<and>
      at b \<lparr>rank = homeRank side, file = 5\<rparr> = None \<and>
      at b \<lparr>rank = homeRank side, file = 6\<rparr> = None \<and>
      isSquareAttacked b \<lparr>rank = homeRank side, file = 5\<rparr> (opponent side) = Some False \<and>
      isSquareAttacked b \<lparr>rank = homeRank side, file = 6\<rparr> (opponent side) = Some False)"

definition queensideCondition :: "Board \<Rightarrow> Color \<Rightarrow> CastlingRights \<Rightarrow> bool" where
  "queensideCondition b side cr =
     ((if side = White then white_queenside cr else black_queenside cr) \<and>
      pieceIs (at b \<lparr>rank = homeRank side, file = 4\<rparr>) King side \<and>
      isSquareAttacked b \<lparr>rank = homeRank side, file = 4\<rparr> (opponent side) = Some False \<and>
      pieceIs (at b \<lparr>rank = homeRank side, file = 0\<rparr>) Rook side \<and>
      at b \<lparr>rank = homeRank side, file = 1\<rparr> = None \<and>
      at b \<lparr>rank = homeRank side, file = 2\<rparr> = None \<and>
      at b \<lparr>rank = homeRank side, file = 3\<rparr> = None \<and>
      isSquareAttacked b \<lparr>rank = homeRank side, file = 2\<rparr> (opponent side) = Some False \<and>
      isSquareAttacked b \<lparr>rank = homeRank side, file = 3\<rparr> (opponent side) = Some False)"

text \<open>What holds of the moves each branch of the generator pushes: a plain move, an en
  passant capture, a castling move.\<close>

definition plainFrom :: "Board \<Rightarrow> Color \<Rightarrow> Square \<Rightarrow> Move \<Rightarrow> bool" where
  "plainFrom b side fromSq m =
     (isMoveLegal b m side = Some True \<and> from m = fromSq \<and> promotion m = None \<and>
      \<not> castling m \<and> \<not> en_passant m \<and> isValid (to m) \<and> \<not> hasPieceAtColor b (to m) side)"

definition epFrom :: "Board \<Rightarrow> Color \<Rightarrow> Move option \<Rightarrow> Square \<Rightarrow> Move \<Rightarrow> bool" where
  "epFrom b side lmo fromSq m =
     (isMoveLegal b m side = Some True \<and> from m = fromSq \<and> promotion m = None \<and>
      en_passant m \<and> \<not> castling m \<and> enPassantCondition b side lmo fromSq (to m))"

definition castleFrom :: "Board \<Rightarrow> Color \<Rightarrow> CastlingRights \<Rightarrow> Square \<Rightarrow> Move \<Rightarrow> bool" where
  "castleFrom b side cr fromSq m =
     (isMoveLegal b m side = Some True \<and> from m = fromSq \<and> promotion m = None \<and>
      castling m \<and> \<not> en_passant m \<and> fromSq = \<lparr>rank = homeRank side, file = 4\<rparr> \<and>
      ((to m = \<lparr>rank = homeRank side, file = 6\<rparr> \<and> kingsideCondition b side cr) \<or>
       (to m = \<lparr>rank = homeRank side, file = 2\<rparr> \<and> queensideCondition b side cr)))"

text \<open>What holds of every move of the list \<open>legalMoves\<close> returns.\<close>

definition genuine :: "Board \<Rightarrow> Color \<Rightarrow> Move option \<Rightarrow> CastlingRights \<Rightarrow> Move \<Rightarrow> bool" where
  "genuine b side lmo cr m =
     (isValid (from m) \<and> promotion m = None \<and> isMoveLegal b m side = Some True \<and>
      (case at b (from m) of
         None \<Rightarrow> False
       | Some p \<Rightarrow>
           color p = side \<and>
           (if castling m then
              \<not> en_passant m \<and> type p = King \<and> from m = \<lparr>rank = homeRank side, file = 4\<rparr> \<and>
              ((to m = \<lparr>rank = homeRank side, file = 6\<rparr> \<and> kingsideCondition b side cr) \<or>
               (to m = \<lparr>rank = homeRank side, file = 2\<rparr> \<and> queensideCondition b side cr))
            else if en_passant m then
              type p = Pawn \<and> enPassantCondition b side lmo (from m) (to m)
            else isValid (to m) \<and> \<not> hasPieceAtColor b (to m) side)))"

text \<open>What holds in every state of a session: while a colour holds a right, its rook
  stands on the corner, and every king of that colour on the board stands on the e-file
  square of the home rank.\<close>

definition homeInvariant :: "Color \<Rightarrow> ChessGame \<Rightarrow> bool" where
  "homeInvariant c g =
     ((kingsideRight c (castling_rights g) \<longrightarrow>
         pieceIs (at (board g) \<lparr>rank = homeRank c, file = 7\<rparr>) Rook c) \<and>
      (queensideRight c (castling_rights g) \<longrightarrow>
         pieceIs (at (board g) \<lparr>rank = homeRank c, file = 0\<rparr>) Rook c) \<and>
      (kingsideRight c (castling_rights g) \<or> queensideRight c (castling_rights g) \<longrightarrow>
         (\<forall>sq. isValid sq \<and> pieceIs (at (board g) sq) King c \<longrightarrow>
               sq = \<lparr>rank = homeRank c, file = 4\<rparr>)))"

section \<open>Example positions\<close>

definition allRights :: CastlingRights where
  "allRights = \<lparr>white_kingside = True, white_queenside = True, black_kingside = True, black_queenside = True\<rparr>"

definition emptyBoard :: Board where
  "emptyBoard = (\<lambda>cell. None)"

text \<open>The twenty moves of the starting position, in the order of generation.\<close>

definition initialMoves :: "Move list" where
  "initialMoves =
    [plainMove \<lparr>rank = 6, file = 0\<rparr> \<lparr>rank = 5, file = 0\<rparr>,
         plainMove \<lparr>rank = 6, file = 0\<rparr> \<lparr>rank = 4, file = 0\<rparr>,
         plainMove \<lparr>rank = 6, file = 1\<rparr> \<lparr>rank = 5, file = 1\<rparr>,
         plainMove \<lparr>rank = 6, file = 1\<rparr> \<lparr>rank = 4, file = 1\<rparr>,
         plainMove \<lparr>rank = 6, file = 2\<rparr> \<lparr>rank = 5, file = 2\<rparr>,
         plainMove \<lparr>rank = 6, file = 2\<rparr> \<lparr>rank = 4, file = 2\<rparr>,
         plainMove \<lparr>rank = 6, file = 3\<rparr> \<lparr>rank = 5, file = 3\<rparr>,
         plainMove \<lparr>rank = 6, file = 3\<rparr> \<lparr>rank = 4, file = 3\<rparr>,
         plainMove \<lparr>rank = 6, file = 4\<rparr> \<lparr>rank = 5, file = 4\<rparr>,
         plainMove \<lparr>rank = 6, file = 4\<rparr> \<lparr>rank = 4, file = 4\<rparr>,
         plainMove \<lparr>rank = 6, file = 5\<rparr> \<lparr>rank = 5, file = 5\<rparr>,
         plainMove \<lparr>rank = 6, file = 5\<rparr> \<lparr>rank = 4, file = 5\<rparr>,
         plainMove \<lparr>rank = 6, file = 6\<rparr> \<lparr>rank = 5, file = 6\<rparr>,
         plainMove \<lparr>rank = 6, file = 6\<rparr> \<lparr>rank = 4, file = 6\<rparr>,
         plainMove \<lparr>rank = 6, file = 7\<rparr> \<lparr>rank = 5, file = 7\<rparr>,
         plainMove \<lparr>rank = 6, file = 7\<rparr> \<lparr>rank = 4, file = 7\<rparr>,
         plainMove \<lparr>rank = 7, file = 1\<rparr> \<lparr>rank = 5, file = 0\<rparr>,
         plainMove \<lparr>rank = 7, file = 1\<rparr> \<lparr>rank = 5, file = 2\<rparr>,
         plainMove \<lparr>rank = 7, file = 6\<rparr> \<lparr>rank = 5, file = 5\<rparr>,
         plainMove \<lparr>rank = 7, file = 6\<rparr> \<lparr>rank = 5, file = 7\<rparr>]"

definition kingsAndRook :: Board where
  "kingsAndRook =
     put (put (put emptyBoard 0 4 (Some \<lparr>type = King, color = Black\<rparr>))
                7 4 (Some \<lparr>type = King, color = White\<rparr>))
                7 7 (Some \<lparr>type = Rook, color = White\<rparr>)"

definition blackKingAndPawn :: Board where
  "blackKingAndPawn =
     put (put emptyBoard 0 4 (Some \<lparr>type = King, color = Black\<rparr>))
                6 0 (Some \<lparr>type = Pawn, color = White\<rparr>)"

definition promotionReady :: ChessGame where
  "promotionReady =
     \<lparr>board = put (put (put emptyBoard 0 4 (Some \<lparr>type = King, color = Black\<rparr>))
                          7 4 (Some \<lparr>type = King, color = White\<rparr>))
                          1 0 (Some \<lparr>type = Pawn, color = White\<rparr>),
      side_to_move = White, last_move = None,
      castling_rights = \<lparr>white_kingside = False, white_queenside = False,
                          black_kingside = False, black_queenside = False\<rparr>\<rparr>"

definition enPassantReady :: Board where
  "enPassantReady =
     put (put (put (put emptyBoard 0 4 (Some \<lparr>type = King, color = Black\<rparr>))
                          7 4 (Some \<lparr>type = King, color = White\<rparr>))
                          3 4 (Some \<lparr>type = Pawn, color = White\<rparr>))
                          3 3 (Some \<lparr>type = Pawn, color = Black\<rparr>)"

definition noRights :: CastlingRights where
  "noRights = \<lparr>white_kingside = False, white_queenside = False,
                black_kingside = False, black_queenside = False\<rparr>"

text \<open>The members of a \<open>ChessGame\<close> as their default initialisers leave them, before the
  constructor calls \<open>newGame\<close>.\<close>

definition freshSession :: ChessGame where
  "freshSession = \<lparr>board = emptyBoard, side_to_move = White, last_move = None,
                    castling_rights = allRights\<rparr>"

text \<open>1. e4 e5, after which White's king may step to e2.\<close>

definition kingStepOpening :: "Move list" where
  "kingStepOpening =
     [plainMove \<lparr>rank = 6, file = 4\<rparr> \<lparr>rank = 4, file = 4\<rparr>,
      plainMove \<lparr>rank = 1, file = 4\<rparr> \<lparr>rank = 3, file = 4\<rparr>]"

text \<open>1. e4 Na6 2. e5 Nb8 3. e6 Na6 4. exd7 Nb8 5. dxe8.\<close>

definition kingCaptureGame :: "Move list" where
  "kingCaptureGame =
     [plainMove \<lparr>rank = 6, file = 4\<rparr> \<lparr>rank = 4, file = 4\<rparr>,
      plainMove \<lparr>rank = 0, file = 1\<rparr> \<lparr>rank = 2, file = 0\<rparr>,
      plainMove \<lparr>rank = 4, file = 4\<rparr> \<lparr>rank = 3, file = 4\<rparr>,
      plainMove \<lparr>rank = 2, file = 0\<rparr> \<lparr>rank = 0, file = 1\<rparr>,
      plainMove \<lparr>rank = 3, file = 4\<rparr> \<lparr>rank = 2, file = 4\<rparr>,
      plainMove \<lparr>rank = 0, file = 1\<rparr> \<lparr>rank = 2, file = 0\<rparr>,
      plainMove \<lparr>rank = 2, file = 4\<rparr> \<lparr>rank = 1, file = 3\<rparr>,
      plainMove \<lparr>rank = 2, file = 0\<rparr> \<lparr>rank = 0, file = 1\<rparr>,
      plainMove \<lparr>rank = 1, file = 3\<rparr> \<lparr>rank = 0, file = 4\<rparr>]"

definition pawnGuardsE2 :: Board where
  "pawnGuardsE2 =
     put (put (put emptyBoard 0 4 (Some \<lparr>type = King, color = Black\<rparr>))
                7 4 (Some \<lparr>type = King, color = White\<rparr>))
                5 3 (Some \<lparr>type = Pawn, color = Black\<rparr>)"

definition castleIntoPawn :: ChessGame where
  "castleIntoPawn =
     \<lparr>board = put kingsAndRook 6 7 (Some \<lparr>type = Pawn, color = Black\<rparr>),
      side_to_move = White, last_move = None,
      castling_rights = \<lparr>white_kingside = True, white_queenside = False,
                          black_kingside = False, black_queenside = False\<rparr>\<rparr>"

section \<open>Termination of the loops and what each generator appends\<close>

lemma appended_refl: "appended ms (Some ms) R"
  by (simp add: appended_def)

lemma appended_bind:
  assumes "appended ms x R" and "\<And>ms1. appended ms1 (f ms1) R"
  shows "appended ms (Option.bind x f) R"
proof -
  from assms(1) obtain new where x: "x = Some (ms @ new)" and n: "list_all R new"
    by (auto simp: appended_def split: option.splits)
  from assms(2)[of "ms @ new"] obtain new' where
    f: "f (ms @ new) = Some ((ms @ new) @ new')" and n': "list_all R new'"
    by (auto simp: appended_def split: option.splits)
  show ?thesis using x f n n' by (simp add: appended_def)
qed

lemma appended_mono:
  assumes "appended ms x R" and "\<And>m. R m \<Longrightarrow> R' m"
  shows "appended ms x R'"
  using assms by (auto simp: appended_def list_all_iff split: option.splits)

lemma appended_SomeD:
  "appended ms x R \<Longrightarrow> \<exists>ms'. x = Some ms' \<and> set ms \<subseteq> set ms' \<and> (\<forall>m\<in>set ms'. m \<in> set ms \<or> R m)"
  by (auto simp: appended_def list_all_iff split: option.splits)

lemma sliderWalk_total:
  assumes nz: "dr \<noteq> 0 \<or> df \<noteq> 0"
  shows "sliderWalk b a d dr df r f dist \<noteq> None"
proof (induction "nat (if dr > 0 then 8 - r else if dr < 0 then r + 1 else if df > 0 then 8 - f else f + 1)"
    arbitrary: r f dist rule: less_induct)
  case less
  show ?case
  proof (cases "isValidSquare r f")
    case False
    then show ?thesis by (subst sliderWalk.simps) simp
  next
    case True
    show ?thesis
    proof (cases "at b \<lparr>rank = r, file = f\<rparr>")
      case (Some p)
      with True show ?thesis by (subst sliderWalk.simps) simp
    next
      case None
      have "sliderWalk b a d dr df (r + dr) (f + df) (dist + 1) \<noteq> None"
        using True nz by (intro less) (auto simp: isValidSquare_def kBoardSize_def)
      with True None show ?thesis by (subst sliderWalk.simps) simp
    qed
  qed
qed

lemma kAllDirections_nonzero:
  "i < 8 \<Longrightarrow> fst (kAllDirections ! i) \<noteq> 0 \<or> snd (kAllDirections ! i) \<noteq> 0"
proof -
  assume "i < 8"
  then have "i = 0 \<or> i = 1 \<or> i = 2 \<or> i = 3 \<or> i = 4 \<or> i = 5 \<or> i = 6 \<or> i = 7" by arith
  then show ?thesis by (auto simp: kAllDirections_def)
qed

lemma sliderDirections_total:
  "\<forall>i\<in>set is. i < 8 \<Longrightarrow> sliderDirections b t a is \<noteq> None"
proof (induction "is")
  case Nil
  then show ?case by simp
next
  case (Cons i rest)
  obtain dr df where d: "kAllDirections ! i = (dr, df)" by (cases "kAllDirections ! i")
  with Cons.prems kAllDirections_nonzero[of i] have nz: "dr \<noteq> 0 \<or> df \<noteq> 0" by simp
  from sliderWalk_total[OF nz] obtain hit where
    "sliderWalk b a (4 \<le> i) dr df (rank t + dr) (file t + df) 1 = Some hit" by blast
  with Cons d show ?case by auto
qed

lemma isSquareAttacked_total: "isSquareAttacked b t a \<noteq> None"
proof -
  have "sliderDirections b t a [0..<length kAllDirections] \<noteq> None"
    by (rule sliderDirections_total) (simp add: kAllDirections_def)
  then show ?thesis by (auto simp add: isSquareAttacked_def isAttackedBySlider_def)
qed

lemma isMoveLegal_total: "isMoveLegal b m side \<noteq> None"
proof -
  have "map_option Not (isSquareAttacked c k a) \<noteq> None" for c k a
    using isSquareAttacked_total[of c k a] by simp
  then show ?thesis
    by (auto simp add: isMoveLegal_def Let_def split: option.splits)
qed

lemma appended_push:
  assumes "isMoveLegal b m side = Some True \<Longrightarrow> R m"
  shows "appended ms (pushIfLegal ms b m side) R"
proof -
  from isMoveLegal_total[of b m side] obtain ok where ok: "isMoveLegal b m side = Some ok" by blast
  show ?thesis using ok assms by (cases ok) (simp_all add: pushIfLegal_def appended_def)
qed

lemma appended_addMove:
  assumes "isValid t" and "\<not> hasPieceAtColor b t side"
  shows "appended ms (addMoveIfLegal ms b fromSq t side) (plainFrom b side fromSq)"
  unfolding addMoveIfLegal_def
  by (rule appended_push) (use assms in \<open>simp add: plainFrom_def plainMove_def\<close>)

lemma hasPieceAtColor_imp: "hasPieceAtColor b sq c \<Longrightarrow> hasPieceAt b sq"
  by (auto simp: hasPieceAtColor_def hasPieceAt_def split: if_splits option.splits)

lemma hasPieceAtColor_opponent: "hasPieceAtColor b sq (opponent c) \<Longrightarrow> \<not> hasPieceAtColor b sq c"
  by (auto simp: hasPieceAtColor_def opponent_def split: if_splits option.splits)

lemma stepMove_appended:
  "appended ms (stepMove ms b fromSq side dr df) (plainFrom b side fromSq)"
  by (simp add: stepMove_def Let_def appended_refl appended_addMove)

lemma knightLoop_appended:
  "appended ms (generateKnightMoves_loop ms b fromSq side offs) (plainFrom b side fromSq)"
proof (induction offs arbitrary: ms)
  case Nil
  show ?case by (simp add: appended_refl)
next
  case (Cons d rest)
  obtain dr df where d: "d = (dr, df)" by (cases d)
  show ?case unfolding d generateKnightMoves_loop.simps
    by (rule appended_bind[OF stepMove_appended]) (rule Cons.IH)
qed

lemma kingSteps_appended:
  "appended ms (kingSteps ms b fromSq side offs) (plainFrom b side fromSq)"
proof (induction offs arbitrary: ms)
  case Nil
  show ?case by (simp add: appended_refl)
next
  case (Cons d rest)
  obtain dr df where d: "d = (dr, df)" by (cases d)
  show ?case
  proof (cases "dr = 0 \<and> df = 0")
    case True
    then show ?thesis unfolding d using Cons.IH by simp
  next
    case False
    have "appended ms (Option.bind (stepMove ms b fromSq side dr df)
        (\<lambda>moves1. kingSteps moves1 b fromSq side rest)) (plainFrom b side fromSq)"
      by (rule appended_bind[OF stepMove_appended]) (rule Cons.IH)
    with False show ?thesis unfolding d by auto
  qed
qed

lemma pawnPushes_appended:
  "appended ms (pawnPushes ms b fromSq side) (plainFrom b side fromSq)"
proof -
  define one where "one = \<lparr>rank = rank fromSq + (if side = White then -1 else 1), file = file fromSq\<rparr>"
  define two where "two = \<lparr>rank = rank fromSq + 2 * (if side = White then -1 else 1), file = file fromSq\<rparr>"
  define second where "second = (\<lambda>moves1.
      if rank fromSq = (if side = White then 6 else 1) \<and> isValid two \<and> \<not> hasPieceAt b two
      then addMoveIfLegal moves1 b fromSq two side else Some moves1)"
  have eq: "pawnPushes ms b fromSq side =
      (if isValid one \<and> \<not> hasPieceAt b one
       then Option.bind (addMoveIfLegal ms b fromSq one side) second else Some ms)"
    unfolding pawnPushes_def Let_def one_def two_def second_def by (rule refl)
  have not_col: "\<not> hasPieceAt b t \<Longrightarrow> \<not> hasPieceAtColor b t side" for t
    using hasPieceAtColor_imp by blast
  have snd: "appended ms1 (second ms1) (plainFrom b side fromSq)" for ms1
    unfolding second_def by (simp add: appended_refl appended_addMove not_col)
  show ?thesis
  proof (cases "isValid one \<and> \<not> hasPieceAt b one")
    case True
    then have "appended ms (addMoveIfLegal ms b fromSq one side) (plainFrom b side fromSq)"
      by (simp add: appended_addMove not_col)
    from appended_bind[OF this snd] True show ?thesis by (simp add: eq)
  next
    case False
    then show ?thesis unfolding eq by (auto simp: appended_refl)
  qed
qed

lemma pawnCaptures_appended:
  "appended ms (pawnCaptures ms b fromSq side dfs) (plainFrom b side fromSq)"
proof (induction dfs arbitrary: ms)
  case Nil
  show ?case by (simp add: appended_refl)
next
  case (Cons d rest)
  define cap where "cap = \<lparr>rank = rank fromSq + (if side = White then -1 else 1), file = file fromSq + d\<rparr>"
  have eq: "pawnCaptures ms b fromSq side (d # rest) =
      (if \<not> isValid cap then pawnCaptures ms b fromSq side rest
       else if hasPieceAtColor b cap (opponent side)
       then Option.bind (addMoveIfLegal ms b fromSq cap side) (\<lambda>moves1. pawnCaptures moves1 b fromSq side rest)
       else pawnCaptures ms b fromSq side rest)"
    unfolding pawnCaptures.simps Let_def cap_def by (rule refl)
  show ?case
  proof (cases "isValid cap \<and> hasPieceAtColor b cap (opponent side)")
    case True
    then have "appended ms (addMoveIfLegal ms b fromSq cap side) (plainFrom b side fromSq)"
      by (simp add: appended_addMove hasPieceAtColor_opponent)
    from appended_bind[OF this Cons.IH] True show ?thesis unfolding eq by simp
  next
    case False
    then show ?thesis using Cons.IH[of ms] unfolding eq by auto
  qed
qed

lemma slideRay_appended:
  assumes nz: "dr \<noteq> 0 \<or> df \<noteq> 0"
  shows "appended ms (slideRay ms b fromSq side dr df r f) (plainFrom b side fromSq)"
proof (induction "nat (if dr > 0 then 8 - r else if dr < 0 then r + 1 else if df > 0 then 8 - f else f + 1)"
    arbitrary: ms r f rule: less_induct)
  case less
  let ?sq = "\<lparr>rank = r, file = f\<rparr>"
  show ?case
  proof (cases "isValidSquare r f")
    case False
    then show ?thesis by (subst slideRay.simps) (simp add: appended_refl)
  next
    case True
    then have v: "isValid ?sq" by (simp add: isValid_def isValidSquare_def)
    show ?thesis
    proof (cases "at b ?sq")
      case (Some dest)
      show ?thesis
      proof (cases "color dest \<noteq> side")
        case c: True
        with Some v have "\<not> hasPieceAtColor b ?sq side"
          by (simp add: hasPieceAtColor_def at_def)
        from appended_addMove[OF v this] True Some c show ?thesis
          by (subst slideRay.simps) simp
      next
        case False
        with True Some show ?thesis by (subst slideRay.simps) (simp add: appended_refl)
      qed
    next
      case None
      with v have nc: "\<not> hasPieceAtColor b ?sq side"
        by (simp add: hasPieceAtColor_def at_def)
      have step: "appended ms1 (slideRay ms1 b fromSq side dr df (r + dr) (f + df)) (plainFrom b side fromSq)" for ms1
        using True nz by (intro less) (auto simp: isValidSquare_def kBoardSize_def)
      have "appended ms (Option.bind (addMoveIfLegal ms b fromSq ?sq side)
          (\<lambda>moves1. slideRay moves1 b fromSq side dr df (r + dr) (f + df))) (plainFrom b side fromSq)"
        by (rule appended_bind[OF appended_addMove[OF v nc]]) (rule step)
      with True None show ?thesis by (subst slideRay.simps) simp
    qed
  qed
qed

lemma generateSlidingMoves_appended:
  assumes "\<forall>(dr, df)\<in>set dirs. dr \<noteq> 0 \<or> df \<noteq> 0"
  shows "appended ms (generateSlidingMoves ms b fromSq side dirs) (plainFrom b side fromSq)"
  using assms
proof (induction dirs arbitrary: ms)
  case Nil
  show ?case by (simp add: appended_refl)
next
  case (Cons d rest)
  obtain dr df where d: "d = (dr, df)" by (cases d)
  from Cons.prems d have nz: "dr \<noteq> 0 \<or> df \<noteq> 0" and rest: "\<forall>(dr, df)\<in>set rest. dr \<noteq> 0 \<or> df \<noteq> 0"
    by auto
  show ?case unfolding d generateSlidingMoves.simps
    by (rule appended_bind[OF slideRay_appended[OF nz]]) (rule Cons.IH[OF rest])
qed

lemma sdiv_two_exact: "(2 * c) sdiv 2 = (c::int)"
proof -
  have "\<bar>2 * c\<bar> div 2 = \<bar>c\<bar>" by (simp add: abs_mult)
  moreover have "sgn (2 * c) = sgn c" by (simp add: sgn_mult)
  moreover have "sgn c * \<bar>c\<bar> = c" by (simp add: sgn_if)
  ultimately show ?thesis by (simp add: signed_divide_int_def)
qed

lemma passed_rank_between:
  assumes "abs (a - c) = (2::int)"
  shows "(min a c < x \<and> x < max a c) = (x = (a + c) sdiv 2)"
proof -
  from assms have "a = c + 2 \<or> a = c - 2" by arith
  then show ?thesis
  proof
    assume a: "a = c + 2"
    have "(a + c) sdiv 2 = c + 1" using sdiv_two_exact[of "c + 1"] by (simp add: a algebra_simps)
    then show ?thesis using a by auto
  next
    assume a: "a = c - 2"
    have "(a + c) sdiv 2 = c - 1" using sdiv_two_exact[of "c - 1"] by (simp add: a algebra_simps)
    then show ?thesis using a by auto
  qed
qed

lemma pawnEnPassant_appended:
  "appended ms (pawnEnPassant ms b fromSq side lmo) (epFrom b side lmo fromSq)"
proof (cases lmo)
  case None
  then show ?thesis by (simp add: pawnEnPassant_def appended_refl)
next
  case (Some lm)
  show ?thesis
  proof (cases "at b (to lm)")
    case None
    with Some show ?thesis by (simp add: pawnEnPassant_def appended_refl)
  next
    case (Some moved_piece)
    note mp = this
    define ep_move where "ep_move = \<lparr>from = fromSq,
        to = \<lparr>rank = (rank (from lm) + rank (to lm)) sdiv 2, file = file (to lm)\<rparr>,
        promotion = None, en_passant = True, castling = False\<rparr>"
    define cond where "cond \<longleftrightarrow> (type moved_piece = Pawn \<and> color moved_piece = opponent side \<and>
        abs (rank (from lm) - rank (to lm)) = 2) \<and>
        (rank fromSq = rank (to lm) \<and> abs (file fromSq - file (to lm)) = 1)"
    have eq: "pawnEnPassant ms b fromSq side lmo =
        (if cond then pushIfLegal ms b ep_move side else Some ms)"
      using \<open>lmo = Some lm\<close> mp by (auto simp: pawnEnPassant_def Let_def ep_move_def cond_def)
    show ?thesis
    proof (cases cond)
      case True
      then have "epFrom b side lmo fromSq ep_move" if "isMoveLegal b ep_move side = Some True"
        using that \<open>lmo = Some lm\<close> mp passed_rank_between[of "rank (from lm)" "rank (to lm)"]
        by (simp add: epFrom_def enPassantCondition_def cond_def ep_move_def pieceIs_def)
      then have "appended ms (pushIfLegal ms b ep_move side) (epFrom b side lmo fromSq)"
        by (rule appended_push)
      with True show ?thesis by (simp add: eq)
    next
      case False
      then show ?thesis by (simp add: eq appended_refl)
    qed
  qed
qed

lemma generatePawnMoves_appended:
  "appended ms (generatePawnMoves ms b fromSq side lmo)
     (\<lambda>m. plainFrom b side fromSq m \<or> epFrom b side lmo fromSq m)"
  unfolding generatePawnMoves_def
  by (intro appended_bind appended_mono[OF pawnPushes_appended]
      appended_mono[OF pawnCaptures_appended] appended_mono[OF pawnEnPassant_appended]) simp_all

lemma not_hasPieceAt_home:
  "0 \<le> f \<Longrightarrow> f < 8 \<Longrightarrow> \<not> hasPieceAt b \<lparr>rank = homeRank side, file = f\<rparr> \<Longrightarrow>
   at b \<lparr>rank = homeRank side, file = f\<rparr> = None"
  by (auto simp: hasPieceAt_def at_def isValid_def kBoardSize_def homeRank_def split: if_splits)

lemma castleKingside_appended:
  assumes frm: "fromSq = \<lparr>rank = homeRank side, file = 4\<rparr>"
    and king: "pieceIs (at b fromSq) King side"
    and safe: "isSquareAttacked b fromSq (opponent side) = Some False"
    and right: "if side = White then white_kingside cr else black_kingside cr"
  shows "appended ms (castleKingside ms b fromSq side (homeRank side)) (castleFrom b side cr fromSq)"
proof -
  let ?h = "homeRank side"
  obtain a5 where a5: "isSquareAttacked b \<lparr>rank = ?h, file = 5\<rparr> (opponent side) = Some a5"
    using isSquareAttacked_total by blast
  obtain a6 where a6: "isSquareAttacked b \<lparr>rank = ?h, file = 6\<rparr> (opponent side) = Some a6"
    using isSquareAttacked_total by blast
  define castle where "castle = \<lparr>from = fromSq, to = \<lparr>rank = ?h, file = 6\<rparr>,
      promotion = None, en_passant = False, castling = True\<rparr>"
  define cond where "cond \<longleftrightarrow> pieceIs (at b \<lparr>rank = ?h, file = 7\<rparr>) Rook side \<and>
      \<not> hasPieceAt b \<lparr>rank = ?h, file = 5\<rparr> \<and> \<not> hasPieceAt b \<lparr>rank = ?h, file = 6\<rparr> \<and>
      \<not> a5 \<and> \<not> a6"
  have eq: "castleKingside ms b fromSq side ?h =
      (if cond then pushIfLegal ms b castle side else Some ms)"
    by (auto simp: castleKingside_def a5 a6 cond_def castle_def)
  show ?thesis
  proof (cases cond)
    case True
    then have "kingsideCondition b side cr"
      using frm king safe right a5 a6
      by (simp add: kingsideCondition_def cond_def not_hasPieceAt_home)
    then have "castleFrom b side cr fromSq castle" if "isMoveLegal b castle side = Some True"
      using that frm by (simp add: castleFrom_def castle_def)
    then have "appended ms (pushIfLegal ms b castle side) (castleFrom b side cr fromSq)"
      by (rule appended_push)
    with True show ?thesis by (simp add: eq)
  next
    case False
    then show ?thesis by (simp add: eq appended_refl)
  qed
qed

lemma castleQueenside_appended:
  assumes frm: "fromSq = \<lparr>rank = homeRank side, file = 4\<rparr>"
    and king: "pieceIs (at b fromSq) King side"
    and safe: "isSquareAttacked b fromSq (opponent side) = Some False"
    and right: "if side = White then white_queenside cr else black_queenside cr"
  shows "appended ms (castleQueenside ms b fromSq side (homeRank side)) (castleFrom b side cr fromSq)"
proof -
  let ?h = "homeRank side"
  obtain a2 where a2: "isSquareAttacked b \<lparr>rank = ?h, file = 2\<rparr> (opponent side) = Some a2"
    using isSquareAttacked_total by blast
  obtain a3 where a3: "isSquareAttacked b \<lparr>rank = ?h, file = 3\<rparr> (opponent side) = Some a3"
    using isSquareAttacked_total by blast
  define castle where "castle = \<lparr>from = fromSq, to = \<lparr>rank = ?h, file = 2\<rparr>,
      promotion = None, en_passant = False, castling = True\<rparr>"
  define cond where "cond \<longleftrightarrow> pieceIs (at b \<lparr>rank = ?h, file = 0\<rparr>) Rook side \<and>
      \<not> hasPieceAt b \<lparr>rank = ?h, file = 1\<rparr> \<and> \<not> hasPieceAt b \<lparr>rank = ?h, file = 2\<rparr> \<and>
      \<not> hasPieceAt b \<lparr>rank = ?h, file = 3\<rparr> \<and> \<not> a2 \<and> \<not> a3"
  have eq: "castleQueenside ms b fromSq side ?h =
      (if cond then pushIfLegal ms b castle side else Some ms)"
    by (auto simp: castleQueenside_def a2 a3 cond_def castle_def)
  show ?thesis
  proof (cases cond)
    case True
    then have "queensideCondition b side cr"
      using frm king safe right a2 a3
      by (simp add: queensideCondition_def cond_def not_hasPieceAt_home)
    then have "castleFrom b side cr fromSq castle" if "isMoveLegal b castle side = Some True"
      using that frm by (simp add: castleFrom_def castle_def)
    then have "appended ms (pushIfLegal ms b castle side) (castleFrom b side cr fromSq)"
      by (rule appended_push)
    with True show ?thesis by (simp add: eq)
  next
    case False
    then show ?thesis by (simp add: eq appended_refl)
  qed
qed

lemma generateKingMoves_appended:
  assumes king: "pieceIs (at b fromSq) King side"
  shows "appended ms (generateKingMoves ms b fromSq side cr)
     (\<lambda>m. plainFrom b side fromSq m \<or> castleFrom b side cr fromSq m)"
    (is "appended ms _ ?R")
proof -
  let ?h = "homeRank side"
  obtain chk where chk: "isSquareAttacked b fromSq (opponent side) = Some chk"
    using isSquareAttacked_total by blast
  define ks where "ks = (if side = White then white_kingside cr else black_kingside cr)"
  define qs where "qs = (if side = White then white_queenside cr else black_queenside cr)"
  define tail where "tail = (\<lambda>moves1.
      if rank fromSq \<noteq> ?h \<or> file fromSq \<noteq> 4 then Some moves1
      else if chk then Some moves1
      else Option.bind (if ks then castleKingside moves1 b fromSq side ?h else Some moves1)
             (\<lambda>moves2. if qs then castleQueenside moves2 b fromSq side ?h else Some moves2))"
  have eq: "generateKingMoves ms b fromSq side cr =
      Option.bind (kingSteps ms b fromSq side kingOffsets) tail"
    unfolding generateKingMoves_def tail_def Let_def ks_def qs_def homeRank_def
    apply (rule arg_cong[where f = "Option.bind _"])
    apply (rule ext)
    apply (insert chk)
    apply auto
    done
  have tail: "appended ms1 (tail ms1) ?R" for ms1
  proof (cases "rank fromSq \<noteq> ?h \<or> file fromSq \<noteq> 4 \<or> chk")
    case True
    then show ?thesis by (auto simp: tail_def appended_refl)
  next
    case False
    then have frm: "fromSq = \<lparr>rank = ?h, file = 4\<rparr>" and safe: "isSquareAttacked b fromSq (opponent side) = Some False"
      using chk by auto
    have k: "appended ms2 (if ks then castleKingside ms2 b fromSq side ?h else Some ms2) ?R" for ms2
    proof (cases ks)
      case True
      then have "if side = White then white_kingside cr else black_kingside cr" by (simp add: ks_def)
      from appended_mono[OF castleKingside_appended[OF frm king safe this]] True
      show ?thesis by simp
    qed (simp add: appended_refl)
    have q: "appended ms2 (if qs then castleQueenside ms2 b fromSq side ?h else Some ms2) ?R" for ms2
    proof (cases qs)
      case True
      then have "if side = White then white_queenside cr else black_queenside cr" by (simp add: qs_def)
      from appended_mono[OF castleQueenside_appended[OF frm king safe this]] True
      show ?thesis by simp
    qed (simp add: appended_refl)
    from False appended_bind[OF k q] show ?thesis by (simp add: tail_def)
  qed
  show ?thesis unfolding eq
    by (rule appended_bind[OF appended_mono[OF kingSteps_appended] tail]) simp
qed

lemma set_indices: "set indices = {0..7}"
  by (simp add: indices_def kBoardSize_def)

lemma mem_allSquares: "sq \<in> set allSquares \<longleftrightarrow> (\<exists>r\<in>set indices. \<exists>f\<in>set indices. sq = \<lparr>rank = r, file = f\<rparr>)"
  by (auto simp: allSquares_def)

lemma set_allSquares: "set allSquares = {sq. isValid sq}"
proof -
  have "sq \<in> set allSquares \<longleftrightarrow> isValid sq" for sq
  proof
    assume "sq \<in> set allSquares"
    then obtain r f where "r \<in> {0..7}" "f \<in> {0..7}" "sq = \<lparr>rank = r, file = f\<rparr>"
      unfolding mem_allSquares set_indices by blast
    then show "isValid sq"
      by (simp add: isValid_def kBoardSize_def)
  next
    assume v: "isValid sq"
    have "sq = \<lparr>rank = rank sq, file = file sq\<rparr>" by simp
    moreover have "rank sq \<in> {0..7}" "file sq \<in> {0..7}"
      using v by (simp_all add: isValid_def kBoardSize_def)
    ultimately show "sq \<in> set allSquares"
      unfolding mem_allSquares set_indices by blast
  qed
  then show ?thesis by blast
qed

lemma generateFor_appended:
  assumes v: "isValid fromSq"
  shows "appended ms (generateFor ms b side lmo cr fromSq) (genuine b side lmo cr)"
proof (cases "at b fromSq")
  case None
  then show ?thesis by (simp add: generateFor_def appended_refl)
next
  case (Some p)
  show ?thesis
  proof (cases "color p = side")
    case False
    with Some show ?thesis by (simp add: generateFor_def appended_refl)
  next
    case True
    have plain: "genuine b side lmo cr m" if "plainFrom b side fromSq m" for m
      using that v Some True by (simp add: plainFrom_def genuine_def)
    have ep: "genuine b side lmo cr m" if "epFrom b side lmo fromSq m" "type p = Pawn" for m
      using that v Some True by (simp add: epFrom_def genuine_def)
    have castle: "genuine b side lmo cr m" if "castleFrom b side cr fromSq m" "type p = King" for m
      using that v Some True by (auto simp add: castleFrom_def genuine_def)
    have rook: "\<forall>(dr, df)\<in>set kRookDirections. dr \<noteq> 0 \<or> df \<noteq> 0"
      by (simp add: kRookDirections_def)
    have bishop: "\<forall>(dr, df)\<in>set kBishopDirections. dr \<noteq> 0 \<or> df \<noteq> 0"
      by (simp add: kBishopDirections_def)
    have queen: "\<forall>(dr, df)\<in>set kAllDirections. dr \<noteq> 0 \<or> df \<noteq> 0"
      by (simp add: kAllDirections_def)
    show ?thesis
    proof (cases "type p")
      case Pawn
      have "appended ms (generatePawnMoves ms b fromSq side lmo) (genuine b side lmo cr)"
        by (rule appended_mono[OF generatePawnMoves_appended]) (use plain ep Pawn in blast)
      with Some True Pawn show ?thesis by (simp add: generateFor_def)
    next
      case Knight
      have "appended ms (generateKnightMoves ms b fromSq side) (genuine b side lmo cr)"
        unfolding generateKnightMoves_def
        by (rule appended_mono[OF knightLoop_appended]) (rule plain)
      with Some True Knight show ?thesis by (simp add: generateFor_def)
    next
      case Bishop
      have "appended ms (generateSlidingMoves ms b fromSq side kBishopDirections) (genuine b side lmo cr)"
        by (rule appended_mono[OF generateSlidingMoves_appended[OF bishop]]) (rule plain)
      with Some True Bishop show ?thesis by (simp add: generateFor_def)
    next
      case Rook
      have "appended ms (generateSlidingMoves ms b fromSq side kRookDirections) (genuine b side lmo cr)"
        by (rule appended_mono[OF generateSlidingMoves_appended[OF rook]]) (rule plain)
      with Some True Rook show ?thesis by (simp add: generateFor_def)
    next
      case Queen
      have "appended ms (generateSlidingMoves ms b fromSq side kAllDirections) (genuine b side lmo cr)"
        by (rule appended_mono[OF generateSlidingMoves_appended[OF queen]]) (rule plain)
      with Some True Queen show ?thesis by (simp add: generateFor_def)
    next
      case King
      with Some True have k: "pieceIs (at b fromSq) King side" by (simp add: pieceIs_def)
      have "appended ms (generateKingMoves ms b fromSq side cr) (genuine b side lmo cr)"
        by (rule appended_mono[OF generateKingMoves_appended[OF k]]) (use plain castle King in blast)
      with Some True King show ?thesis by (simp add: generateFor_def)
    qed
  qed
qed

lemma legalMoves_loop_appended:
  "\<forall>sq\<in>set sqs. isValid sq \<Longrightarrow>
   appended ms (legalMoves_loop ms b side lmo cr sqs) (genuine b side lmo cr)"
proof (induction sqs arbitrary: ms)
  case Nil
  show ?case by (simp add: appended_refl)
next
  case (Cons sq rest)
  then have v: "isValid sq" and r: "\<forall>sq\<in>set rest. isValid sq" by simp_all
  show ?case unfolding legalMoves_loop.simps
    by (rule appended_bind[OF generateFor_appended[OF v]]) (rule Cons.IH[OF r])
qed

lemma legalMoves_genuine:
  "\<exists>ms. legalMoves b side lmo cr = Some ms \<and> (\<forall>m\<in>set ms. genuine b side lmo cr m)"
proof -
  have "appended [] (legalMoves b side lmo cr) (genuine b side lmo cr)"
    unfolding legalMoves_def by (rule legalMoves_loop_appended) (simp add: set_allSquares)
  then show ?thesis by (auto simp: appended_def list_all_iff split: option.splits)
qed

lemma legal_move_genuine:
  assumes "legalMoves b side lmo cr = Some ms" and "m \<in> set ms"
  shows "genuine b side lmo cr m"
  using legalMoves_genuine[of b side lmo cr] assms by auto

lemma genuineD:
  assumes "genuine b side lmo cr m"
  shows "isValid (from m)" and "promotion m = None" and "isMoveLegal b m side = Some True"
    and "\<exists>p. at b (from m) = Some p \<and> color p = side"
  using assms by (auto simp: genuine_def split: option.splits)

lemma genuine_castling:
  assumes "genuine b side lmo cr m" and "castling m"
  shows "\<not> en_passant m" and "pieceIs (at b (from m)) King side"
    and "from m = \<lparr>rank = homeRank side, file = 4\<rparr>"
    and "(to m = \<lparr>rank = homeRank side, file = 6\<rparr> \<and> kingsideCondition b side cr) \<or>
         (to m = \<lparr>rank = homeRank side, file = 2\<rparr> \<and> queensideCondition b side cr)"
  using assms by (auto simp: genuine_def pieceIs_def split: option.splits)

lemma genuine_en_passant:
  assumes "genuine b side lmo cr m" and "en_passant m"
  shows "\<not> castling m" and "pieceIs (at b (from m)) Pawn side"
    and "enPassantCondition b side lmo (from m) (to m)"
  using assms by (auto simp: genuine_def pieceIs_def split: option.splits if_splits)

lemma genuine_plain:
  assumes "genuine b side lmo cr m" and "\<not> castling m" and "\<not> en_passant m"
  shows "isValid (to m)" and "\<not> hasPieceAtColor b (to m) side"
  using assms by (auto simp: genuine_def split: option.splits)

section \<open>The en-passant capture is generated whenever its conditions hold\<close>

lemma pawnEnPassant_complete:
  assumes "lmo = Some lm" and "pieceIs (at b (to lm)) Pawn (opponent side)"
    and "abs (rank (from lm) - rank (to lm)) = 2"
    and "rank fromSq = rank (to lm)" and "abs (file fromSq - file (to lm)) = 1"
    and "isMoveLegal b \<lparr>from = fromSq,
           to = \<lparr>rank = (rank (from lm) + rank (to lm)) sdiv 2, file = file (to lm)\<rparr>,
           promotion = None, en_passant = True, castling = False\<rparr> side = Some True"
  shows "pawnEnPassant ms b fromSq side lmo =
     Some (ms @ [\<lparr>from = fromSq,
           to = \<lparr>rank = (rank (from lm) + rank (to lm)) sdiv 2, file = file (to lm)\<rparr>,
           promotion = None, en_passant = True, castling = False\<rparr>])"
  using assms
  by (auto simp: pawnEnPassant_def pushIfLegal_def Let_def pieceIs_def split: option.splits)

lemma generateFor_pawn_complete:
  assumes pawn: "pieceIs (at b fromSq) Pawn side"
    and "lmo = Some lm" and "pieceIs (at b (to lm)) Pawn (opponent side)"
    and "abs (rank (from lm) - rank (to lm)) = 2"
    and "rank fromSq = rank (to lm)" and "abs (file fromSq - file (to lm)) = 1"
    and "isMoveLegal b \<lparr>from = fromSq,
           to = \<lparr>rank = (rank (from lm) + rank (to lm)) sdiv 2, file = file (to lm)\<rparr>,
           promotion = None, en_passant = True, castling = False\<rparr> side = Some True"
  shows "\<exists>ms'. generateFor ms b side lmo cr fromSq = Some ms' \<and>
     \<lparr>from = fromSq,
       to = \<lparr>rank = (rank (from lm) + rank (to lm)) sdiv 2, file = file (to lm)\<rparr>,
       promotion = None, en_passant = True, castling = False\<rparr> \<in> set ms'"
proof -
  from appended_SomeD[OF pawnPushes_appended[of ms b fromSq side]]
  obtain ms1 where ms1: "pawnPushes ms b fromSq side = Some ms1" by blast
  from appended_SomeD[OF pawnCaptures_appended[of ms1 b fromSq side "[-1, 1]"]]
  obtain ms2 where ms2: "pawnCaptures ms1 b fromSq side [-1, 1] = Some ms2" by blast
  have "generatePawnMoves ms b fromSq side lmo = pawnEnPassant ms2 b fromSq side lmo"
    using ms1 ms2 by (simp add: generatePawnMoves_def)
  also note pawnEnPassant_complete[OF assms(2-7), of ms2]
  finally have "generatePawnMoves ms b fromSq side lmo = Some (ms2 @ [\<lparr>from = fromSq,
           to = \<lparr>rank = (rank (from lm) + rank (to lm)) sdiv 2, file = file (to lm)\<rparr>,
           promotion = None, en_passant = True, castling = False\<rparr>])" .
  moreover from pawn have "generateFor ms b side lmo cr fromSq = generatePawnMoves ms b fromSq side lmo"
    by (auto simp: generateFor_def pieceIs_def split: option.splits)
  ultimately show ?thesis by simp
qed

lemma legalMoves_loop_keeps:
  assumes "\<forall>sq\<in>set sqs. isValid sq" and "x \<in> set ms"
  shows "\<exists>ms'. legalMoves_loop ms b side lmo cr sqs = Some ms' \<and> x \<in> set ms'"
  using appended_SomeD[OF legalMoves_loop_appended[OF assms(1), of ms b side lmo cr]] assms(2)
  by blast

lemma legalMoves_loop_complete:
  assumes "\<forall>sq\<in>set sqs. isValid sq" and "fromSq \<in> set sqs"
    and "\<And>ms. \<exists>ms'. generateFor ms b side lmo cr fromSq = Some ms' \<and> x \<in> set ms'"
  shows "\<exists>ms'. legalMoves_loop ms b side lmo cr sqs = Some ms' \<and> x \<in> set ms'"
  using assms(1,2)
proof (induction sqs arbitrary: ms)
  case Nil
  then show ?case by simp
next
  case (Cons sq rest)
  then have v: "isValid sq" and r: "\<forall>sq\<in>set rest. isValid sq" by simp_all
  from appended_SomeD[OF generateFor_appended[OF v, of ms b side lmo cr]]
  obtain ms1 where ms1: "generateFor ms b side lmo cr sq = Some ms1" by blast
  show ?case
  proof (cases "sq = fromSq")
    case True
    with assms(3)[of ms] ms1 have "x \<in> set ms1" by simp
    from legalMoves_loop_keeps[OF r this, of b side lmo cr] ms1 show ?thesis by simp
  next
    case False
    with Cons.prems have "fromSq \<in> set rest" by simp
    from Cons.IH[OF r this, of ms1] ms1 show ?thesis by simp
  qed
qed

section \<open>Reading the board after a move\<close>

lemma square_eq_iff: "(a = c) = (rank a = rank c \<and> file a = file c)" for a c :: Square
  by (cases a, cases c) simp

lemma at_put: "at (put b r f p) sq = (if rank sq = r \<and> file sq = f then p else at b sq)"
  by (simp add: at_def put_def)

lemma at_movePiece:
  "at (movePiece b m) sq =
     (if sq = from m then None else if sq = to m then at b (from m) else at b sq)"
  by (simp add: movePiece_def Let_def at_def put_def square_eq_iff)

lemma at_clearSquare:
  "at (clearSquare b c) sq = (if isValid c \<and> sq = c then None else at b sq)"
  by (simp add: clearSquare_def setPiece_def at_def put_def square_eq_iff)

lemma findKing_None_iff:
  "findKing b side = None \<longleftrightarrow> (\<forall>sq. isValid sq \<longrightarrow> \<not> pieceIs (at b sq) King side)"
  by (simp add: findKing_def find_None_iff set_allSquares)

lemma findKing_SomeD:
  "findKing b side = Some k \<Longrightarrow> isValid k \<and> pieceIs (at b k) King side"
proof -
  assume "findKing b side = Some k"
  then obtain i where "i < length allSquares" "pieceIs (at b (allSquares ! i)) King side" "k = allSquares ! i"
    unfolding findKing_def find_Some_iff by blast
  then have "k \<in> set allSquares \<and> pieceIs (at b k) King side"
    by simp
  then show ?thesis by (simp add: set_allSquares)
qed

lemma enPassantCondition_squares:
  assumes "enPassantCondition b side lmo fromSq toSq"
  shows "file toSq \<noteq> file fromSq" and "rank toSq \<noteq> rank fromSq"
    and "pieceIs (at b \<lparr>rank = rank fromSq, file = file toSq\<rparr>) Pawn (opponent side)"
proof -
  from assms obtain lm where lmo: "lmo = Some lm"
    and c: "pieceIs (at b (to lm)) Pawn (opponent side)"
      "abs (rank (from lm) - rank (to lm)) = 2"
      "rank fromSq = rank (to lm)" "abs (file fromSq - file (to lm)) = 1"
      "file toSq = file (to lm)"
      "min (rank (from lm)) (rank (to lm)) < rank toSq"
      "rank toSq < max (rank (from lm)) (rank (to lm))"
    by (auto simp: enPassantCondition_def split: option.splits)
  from c show "file toSq \<noteq> file fromSq" by auto
  from c show "rank toSq \<noteq> rank fromSq" by auto
  have eq: "\<lparr>rank = rank fromSq, file = file toSq\<rparr> = to lm"
    using c by (simp add: square_eq_iff)
  show "pieceIs (at b \<lparr>rank = rank fromSq, file = file toSq\<rparr>) Pawn (opponent side)"
    unfolding eq by (rule c(1))
qed

lemma genuine_to_neq_from:
  assumes g: "genuine b side lmo cr m"
  shows "to m \<noteq> from m"
proof (cases "castling m")
  case True
  from genuine_castling(3,4)[OF g True] show ?thesis by (auto simp: square_eq_iff)
next
  case False
  show ?thesis
  proof (cases "en_passant m")
    case True
    from enPassantCondition_squares(1)[OF genuine_en_passant(3)[OF g True]] show ?thesis by auto
  next
    case ep: False
    from genuineD(1,4)[OF g] have "hasPieceAtColor b (from m) side"
      by (auto simp: hasPieceAtColor_def at_def)
    with genuine_plain(2)[OF g False ep] show ?thesis by auto
  qed
qed

lemma handleSpecialMoves_at_to:
  assumes g: "genuine (board s) side lmo cr m"
  shows "at (board (handleSpecialMoves s m)) (to m) = at (board s) (from m)"
proof -
  let ?c = "\<lparr>rank = rank (from m), file = file (to m)\<rparr>"
  define b1 where "b1 = (if en_passant m then clearSquare (board s) ?c else board s)"
  have neq: "to m \<noteq> from m" by (rule genuine_to_neq_from[OF g])
  have b1: "at b1 (from m) = at (board s) (from m)"
  proof (cases "en_passant m")
    case True
    from enPassantCondition_squares(1)[OF genuine_en_passant(3)[OF g True]]
    have "from m \<noteq> ?c" by (auto simp: square_eq_iff)
    then show ?thesis by (simp add: b1_def at_clearSquare)
  qed (simp add: b1_def)
  have b2: "at (movePiece b1 m) (to m) = at (board s) (from m)"
    using neq b1 by (simp add: at_movePiece)
  show ?thesis
  proof (cases "castling m")
    case False
    with b2 show ?thesis by (simp add: handleSpecialMoves_def Let_def b1_def)
  next
    case True
    from genuine_castling(4)[OF g True] have "file (to m) = 6 \<or> file (to m) = 2" by auto
    then show ?thesis
      using True b2
      by (auto simp: handleSpecialMoves_def Let_def b1_def[symmetric] at_movePiece plainMove_def square_eq_iff)
  qed
qed

lemma handleSpecialMoves_stages:
  "board (handleSpecialMoves s m) =
     (let b1 = (if en_passant m
                then clearSquare (board s) \<lparr>rank = rank (from m), file = file (to m)\<rparr>
                else board s);
          b2 = movePiece b1 m
      in if castling m \<and> file (to m) = 6
         then movePiece b2 (plainMove \<lparr>rank = rank (from m), file = 7\<rparr> \<lparr>rank = rank (from m), file = 5\<rparr>)
         else if castling m \<and> file (to m) = 2
         then movePiece b2 (plainMove \<lparr>rank = rank (from m), file = 0\<rparr> \<lparr>rank = rank (from m), file = 3\<rparr>)
         else b2)"
  by (simp add: handleSpecialMoves_def Let_def)

lemma at_rook_relocation:
  "at (movePiece b (plainMove \<lparr>rank = r, file = f1\<rparr> \<lparr>rank = r, file = f2\<rparr>)) sq =
     (if rank sq = r \<and> file sq = f1 then None
      else if rank sq = r \<and> file sq = f2 then at b \<lparr>rank = r, file = f1\<rparr>
      else at b sq)"
  by (simp add: at_movePiece plainMove_def square_eq_iff)

lemma handleSpecialMoves_untouched:
  assumes "sq \<noteq> from m" and "sq \<noteq> to m"
    and "en_passant m \<longrightarrow> sq \<noteq> \<lparr>rank = rank (from m), file = file (to m)\<rparr>"
    and "castling m \<longrightarrow> rank sq \<noteq> rank (from m)"
  shows "at (board (handleSpecialMoves s m)) sq = at (board s) sq"
proof -
  define b1 where "b1 = (if en_passant m
                then clearSquare (board s) \<lparr>rank = rank (from m), file = file (to m)\<rparr>
                else board s)"
  have 1: "at b1 sq = at (board s) sq"
    using assms(3) by (simp add: b1_def at_clearSquare)
  have 2: "at (movePiece b1 m) sq = at b1 sq"
    using assms(1,2) by (simp add: at_movePiece)
  have 3: "at (board (handleSpecialMoves s m)) sq = at (movePiece b1 m) sq"
    unfolding handleSpecialMoves_stages Let_def b1_def[symmetric]
    using assms(4) by (simp add: at_rook_relocation)
  from 1 2 3 show ?thesis by simp
qed

lemma handleSpecialMoves_origin:
  assumes g: "genuine (board s) side lmo cr m"
    and q: "at (board (handleSpecialMoves s m)) sq = Some q"
  shows "(sq = to m \<and> at (board s) (from m) = Some q) \<or>
         (sq \<noteq> from m \<and> sq \<noteq> to m \<and> at (board s) sq = Some q) \<or>
         (castling m \<and> type q = Rook \<and> color q = side)"
proof (cases "sq = to m")
  case True
  with handleSpecialMoves_at_to[OF g] q show ?thesis by simp
next
  case False
  define b1 where "b1 = (if en_passant m
                then clearSquare (board s) \<lparr>rank = rank (from m), file = file (to m)\<rparr>
                else board s)"
  have b1: "at b1 x = Some y \<Longrightarrow> at (board s) x = Some y" for x y
    by (simp add: b1_def at_clearSquare split: if_splits)
  have b2: "at (movePiece b1 m) x = Some y \<Longrightarrow> x \<noteq> to m \<Longrightarrow> x \<noteq> from m \<and> at (board s) x = Some y" for x y
    using b1[of x y] by (simp add: at_movePiece split: if_splits)
  show ?thesis
  proof (cases "castling m")
    case c: False
    with q have "at (movePiece b1 m) sq = Some q"
      by (simp add: handleSpecialMoves_stages Let_def b1_def)
    from b2[OF this False] False show ?thesis by simp
  next
    case c: True
    let ?h = "homeRank side"
    note gc = genuine_castling[OF g c]
    have r: "rank (from m) = ?h" "file (from m) = 4" using gc(3) by simp_all
    from gc(4) show ?thesis
    proof
      assume k: "to m = \<lparr>rank = ?h, file = 6\<rparr> \<and> kingsideCondition (board s) side cr"
      then have rook: "pieceIs (at (board s) \<lparr>rank = ?h, file = 7\<rparr>) Rook side"
        by (simp add: kingsideCondition_def)
      from k c q have q': "at (movePiece (movePiece b1 m)
          (plainMove \<lparr>rank = ?h, file = 7\<rparr> \<lparr>rank = ?h, file = 5\<rparr>)) sq = Some q"
        by (simp add: handleSpecialMoves_stages Let_def b1_def r)
      show ?thesis
      proof (cases "rank sq = ?h \<and> file sq = 5")
        case True
        with q' have "at (movePiece b1 m) \<lparr>rank = ?h, file = 7\<rparr> = Some q"
          by (simp add: at_rook_relocation)
        from b2[OF this] k have "at (board s) \<lparr>rank = ?h, file = 7\<rparr> = Some q"
          by (simp add: square_eq_iff)
        with rook c show ?thesis by (simp add: pieceIs_def)
      next
        case False
        with q' have "at (movePiece b1 m) sq = Some q"
          by (simp add: at_rook_relocation split: if_splits)
        from b2[OF this \<open>sq \<noteq> to m\<close>] \<open>sq \<noteq> to m\<close> show ?thesis by simp
      qed
    next
      assume k: "to m = \<lparr>rank = ?h, file = 2\<rparr> \<and> queensideCondition (board s) side cr"
      then have rook: "pieceIs (at (board s) \<lparr>rank = ?h, file = 0\<rparr>) Rook side"
        by (simp add: queensideCondition_def)
      from k c q have q': "at (movePiece (movePiece b1 m)
          (plainMove \<lparr>rank = ?h, file = 0\<rparr> \<lparr>rank = ?h, file = 3\<rparr>)) sq = Some q"
        by (simp add: handleSpecialMoves_stages Let_def b1_def r)
      show ?thesis
      proof (cases "rank sq = ?h \<and> file sq = 3")
        case True
        with q' have "at (movePiece b1 m) \<lparr>rank = ?h, file = 0\<rparr> = Some q"
          by (simp add: at_rook_relocation)
        from b2[OF this] k have "at (board s) \<lparr>rank = ?h, file = 0\<rparr> = Some q"
          by (simp add: square_eq_iff)
        with rook c show ?thesis by (simp add: pieceIs_def)
      next
        case False
        with q' have "at (movePiece b1 m) sq = Some q"
          by (simp add: at_rook_relocation split: if_splits)
        from b2[OF this \<open>sq \<noteq> to m\<close>] \<open>sq \<noteq> to m\<close> show ?thesis by simp
      qed
    qed
  qed
qed

section \<open>What \<open>makeMove\<close> returns and how the castling rights change\<close>

lemma makeMove_total: "\<exists>ok g'. makeMove g move = Some (ok, g')"
proof -
  obtain ms where "legalMoves (board g) (side_to_move g) (last_move g) (castling_rights g) = Some ms"
    using legalMoves_genuine by blast
  then show ?thesis by (auto simp add: makeMove_def Let_def split: option.splits)
qed

lemma revokeIfRookSquare_rights:
  "white_kingside (revokeIfRookSquare cr sq) = (white_kingside cr \<and> \<not> (rank sq = 7 \<and> file sq = 7))"
  "white_queenside (revokeIfRookSquare cr sq) = (white_queenside cr \<and> \<not> (rank sq = 7 \<and> file sq = 0))"
  "black_kingside (revokeIfRookSquare cr sq) = (black_kingside cr \<and> \<not> (rank sq = 0 \<and> file sq = 7))"
  "black_queenside (revokeIfRookSquare cr sq) = (black_queenside cr \<and> \<not> (rank sq = 0 \<and> file sq = 0))"
  by (auto simp: revokeIfRookSquare_def)

lemma updateCastlingRights_rights:
  "white_kingside (castling_rights (updateCastlingRights g m)) =
     (white_kingside (castling_rights g) \<and> \<not> (kingArrived g m \<and> side_to_move g = White) \<and>
      from m \<noteq> \<lparr>rank = 7, file = 7\<rparr> \<and> to m \<noteq> \<lparr>rank = 7, file = 7\<rparr>)"
  "white_queenside (castling_rights (updateCastlingRights g m)) =
     (white_queenside (castling_rights g) \<and> \<not> (kingArrived g m \<and> side_to_move g = White) \<and>
      from m \<noteq> \<lparr>rank = 7, file = 0\<rparr> \<and> to m \<noteq> \<lparr>rank = 7, file = 0\<rparr>)"
  "black_kingside (castling_rights (updateCastlingRights g m)) =
     (black_kingside (castling_rights g) \<and> \<not> (kingArrived g m \<and> side_to_move g \<noteq> White) \<and>
      from m \<noteq> \<lparr>rank = 0, file = 7\<rparr> \<and> to m \<noteq> \<lparr>rank = 0, file = 7\<rparr>)"
  "black_queenside (castling_rights (updateCastlingRights g m)) =
     (black_queenside (castling_rights g) \<and> \<not> (kingArrived g m \<and> side_to_move g \<noteq> White) \<and>
      from m \<noteq> \<lparr>rank = 0, file = 0\<rparr> \<and> to m \<noteq> \<lparr>rank = 0, file = 0\<rparr>)"
  by (auto simp: updateCastlingRights_def Let_def revokeIfRookSquare_rights kingArrived_def
      square_eq_iff split: option.splits)

lemma makeMove_SomeD:
  assumes "makeMove g move = Some (ok, g')"
  shows "(\<not> ok \<and> g' = g) \<or>
     (\<exists>ms m. ok \<and> legalMoves (board g) (side_to_move g) (last_move g) (castling_rights g) = Some ms \<and>
        m \<in> set ms \<and> from m = from move \<and> to m = to move \<and>
        g' = (updateCastlingRights (handleSpecialMoves g m) m)
               \<lparr>last_move := Some m, side_to_move := opponent (side_to_move g)\<rparr>)"
proof -
  obtain ms where ms: "legalMoves (board g) (side_to_move g) (last_move g) (castling_rights g) = Some ms"
    using legalMoves_genuine by blast
  show ?thesis
  proof (cases "find (\<lambda>m. from m = from move \<and> to m = to move) ms")
    case None
    with ms assms show ?thesis by (simp add: makeMove_def)
  next
    case (Some m)
    then have "m \<in> set ms" "from m = from move \<and> to m = to move"
      by (auto simp: find_Some_iff)
    moreover have "side_to_move (updateCastlingRights (handleSpecialMoves g m) m) = side_to_move g"
      by (simp add: updateCastlingRights_def handleSpecialMoves_def Let_def)
    ultimately show ?thesis using ms assms Some
      by (auto simp: makeMove_def Let_def)
  qed
qed

lemma makeMove_rights_mono:
  assumes "makeMove g move = Some (ok, g')"
  shows "(white_kingside (castling_rights g') \<longrightarrow> white_kingside (castling_rights g)) \<and>
         (white_queenside (castling_rights g') \<longrightarrow> white_queenside (castling_rights g)) \<and>
         (black_kingside (castling_rights g') \<longrightarrow> black_kingside (castling_rights g)) \<and>
         (black_queenside (castling_rights g') \<longrightarrow> black_queenside (castling_rights g))"
proof -
  have "castling_rights (handleSpecialMoves g m) = castling_rights g" for m
    by (simp add: handleSpecialMoves_def Let_def)
  with makeMove_SomeD[OF assms] show ?thesis
    by (auto simp: updateCastlingRights_rights)
qed

lemma board_after_makeMove:
  "board ((updateCastlingRights s1 m)\<lparr>last_move := x, side_to_move := y\<rparr>) = board s1"
  by (simp add: updateCastlingRights_def Let_def)

lemma rights_after_move:
  assumes g: "genuine (board s) (side_to_move s) lmo cr m"
  defines "s1 \<equiv> updateCastlingRights (handleSpecialMoves s m) m"
  defines "king_moves \<equiv> pieceIs (at (board s) (from m)) King (side_to_move s)"
  shows "kingsideRight c (castling_rights s1) =
           (kingsideRight c (castling_rights s) \<and> \<not> (king_moves \<and> side_to_move s = c) \<and>
            from m \<noteq> \<lparr>rank = homeRank c, file = 7\<rparr> \<and> to m \<noteq> \<lparr>rank = homeRank c, file = 7\<rparr>)"
    and "queensideRight c (castling_rights s1) =
           (queensideRight c (castling_rights s) \<and> \<not> (king_moves \<and> side_to_move s = c) \<and>
            from m \<noteq> \<lparr>rank = homeRank c, file = 0\<rparr> \<and> to m \<noteq> \<lparr>rank = homeRank c, file = 0\<rparr>)"
proof -
  from genuineD(4)[OF g] obtain p where p: "at (board s) (from m) = Some p" "color p = side_to_move s"
    by blast
  have ka: "kingArrived (handleSpecialMoves s m) m = king_moves"
    using handleSpecialMoves_at_to[OF g] p
    by (simp add: kingArrived_def king_moves_def pieceIs_def)
  have same: "castling_rights (handleSpecialMoves s m) = castling_rights s"
    "side_to_move (handleSpecialMoves s m) = side_to_move s"
    by (simp_all add: handleSpecialMoves_def Let_def)
  show "kingsideRight c (castling_rights s1) =
           (kingsideRight c (castling_rights s) \<and> \<not> (king_moves \<and> side_to_move s = c) \<and>
            from m \<noteq> \<lparr>rank = homeRank c, file = 7\<rparr> \<and> to m \<noteq> \<lparr>rank = homeRank c, file = 7\<rparr>)"
    unfolding s1_def kingsideRight_def homeRank_def
    by (cases c; cases "side_to_move s") (auto simp: updateCastlingRights_rights ka same)
  show "queensideRight c (castling_rights s1) =
           (queensideRight c (castling_rights s) \<and> \<not> (king_moves \<and> side_to_move s = c) \<and>
            from m \<noteq> \<lparr>rank = homeRank c, file = 0\<rparr> \<and> to m \<noteq> \<lparr>rank = homeRank c, file = 0\<rparr>)"
    unfolding s1_def queensideRight_def homeRank_def
    by (cases c; cases "side_to_move s") (auto simp: updateCastlingRights_rights ka same)
qed

lemma makeMoves_reachable:
  "reachable g \<Longrightarrow> makeMoves g moves = Some (oks, g') \<Longrightarrow> reachable g'"
proof (induction moves arbitrary: g oks)
  case Nil
  then show ?case by simp
next
  case (Cons move rest)
  obtain ok g1 where step: "makeMove g move = Some (ok, g1)"
    using makeMove_total by blast
  with Cons.prems(2) obtain oks' where "makeMoves g1 rest = Some (oks', g')"
    by (auto split: prod.splits)
  moreover have "reachable g1" by (rule reachable.step[OF Cons.prems(1) step])
  ultimately show ?case by (rule Cons.IH[rotated])
qed

section \<open>Evaluation of the starting position and of the example positions\<close>

lemma initial_legalMoves:
  "legalMoves (reset b) White None allRights = Some initialMoves"
  unfolding reset_def clear_def by code_simp

lemma initial_counts:
  "length initialMoves = 20 \<and>
   length (filter (\<lambda>m. pieceIs (at (setupInitialPosition (\<lambda>cell. None)) (from m)) Pawn White \<and>
                        file (to m) = file (from m) \<and> rank (to m) = rank (from m) - 1) initialMoves) = 8 \<and>
   length (filter (\<lambda>m. pieceIs (at (setupInitialPosition (\<lambda>cell. None)) (from m)) Pawn White \<and>
                        file (to m) = file (from m) \<and> rank (to m) = rank (from m) - 2) initialMoves) = 8 \<and>
   length (filter (\<lambda>m. pieceIs (at (setupInitialPosition (\<lambda>cell. None)) (from m)) Knight White) initialMoves) = 4 \<and>
   length (filter (\<lambda>m. pieceIs (at (setupInitialPosition (\<lambda>cell. None)) (from m)) Pawn White \<or>
                        pieceIs (at (setupInitialPosition (\<lambda>cell. None)) (from m)) Knight White) initialMoves) = 20"
  by code_simp

lemma initial_homes:
  "list_all (\<lambda>sq. (pieceIs (at (setupInitialPosition (\<lambda>cell. None)) sq) King White \<longrightarrow>
                       sq = \<lparr>rank = 7, file = 4\<rparr>) \<and>
                   (pieceIs (at (setupInitialPosition (\<lambda>cell. None)) sq) King Black \<longrightarrow>
                       sq = \<lparr>rank = 0, file = 4\<rparr>)) allSquares \<and>
   pieceIs (at (setupInitialPosition (\<lambda>cell. None)) \<lparr>rank = 7, file = 7\<rparr>) Rook White \<and>
   pieceIs (at (setupInitialPosition (\<lambda>cell. None)) \<lparr>rank = 7, file = 0\<rparr>) Rook White \<and>
   pieceIs (at (setupInitialPosition (\<lambda>cell. None)) \<lparr>rank = 0, file = 7\<rparr>) Rook Black \<and>
   pieceIs (at (setupInitialPosition (\<lambda>cell. None)) \<lparr>rank = 0, file = 0\<rparr>) Rook Black \<and>
   at (setupInitialPosition (\<lambda>cell. None)) \<lparr>rank = 6, file = 4\<rparr> = Some \<lparr>type = Pawn, color = White\<rparr>"
  by code_simp

lemma kingStepOpening_played:
  "Option.bind (makeMoves (newGame freshSession) kingStepOpening)
     (\<lambda>(oks, g). map_option
        (\<lambda>(ok, g'). (oks, ok, side_to_move g, castling_rights g,
                       at (board g) \<lparr>rank = 7, file = 4\<rparr>))
        (makeMove g (plainMove \<lparr>rank = 7, file = 4\<rparr> \<lparr>rank = 6, file = 4\<rparr>))) =
   Some ([True, True], True, White,
         \<lparr>white_kingside = True, white_queenside = True,
          black_kingside = True, black_queenside = True\<rparr>,
         Some \<lparr>type = King, color = White\<rparr>)"
  by code_simp

lemma kingsAndRook_rook_move:
  "map_option (\<lambda>(oks, g'). (oks, white_kingside (castling_rights g')))
     (makeMoves \<lparr>board = kingsAndRook, side_to_move = White, last_move = None,
                  castling_rights = \<lparr>white_kingside = True, white_queenside = False,
                                      black_kingside = False, black_queenside = False\<rparr>\<rparr>
        [plainMove \<lparr>rank = 7, file = 7\<rparr> \<lparr>rank = 7, file = 6\<rparr>]) = Some ([True], False)"
  by code_simp

lemma kingsAndRook_moves:
  "map_option (filter castling)
     (legalMoves kingsAndRook White None
        \<lparr>white_kingside = True, white_queenside = False, black_kingside = False, black_queenside = False\<rparr>) =
   Some [\<lparr>from = \<lparr>rank = 7, file = 4\<rparr>, to = \<lparr>rank = 7, file = 6\<rparr>,
          promotion = None, en_passant = False, castling = True\<rparr>]"
  by code_simp

lemma promotionReady_accepts:
  "map_option fst (makeMove promotionReady
      \<lparr>from = \<lparr>rank = 1, file = 0\<rparr>, to = \<lparr>rank = 0, file = 0\<rparr>,
       promotion = Some Queen, en_passant = False, castling = False\<rparr>) = Some True"
  by code_simp

lemma enPassantReady_legal:
  "isMoveLegal enPassantReady
     \<lparr>from = \<lparr>rank = 3, file = 4\<rparr>, to = \<lparr>rank = 2, file = 3\<rparr>, promotion = None,
      en_passant = True, castling = False\<rparr> White = Some True"
  by code_simp

lemma pawnGuardsE2_eval:
  "(let copy = movePiece pawnGuardsE2 (plainMove \<lparr>rank = 7, file = 4\<rparr> \<lparr>rank = 6, file = 4\<rparr>)
    in (map_option (\<lambda>ms. plainMove \<lparr>rank = 7, file = 4\<rparr> \<lparr>rank = 6, file = 4\<rparr> \<in> set ms)
          (legalMoves pawnGuardsE2 White None noRights),
        findKing copy White,
        isAttackedByPawn copy \<lparr>rank = 6, file = 4\<rparr> Black,
        isSquareAttacked copy \<lparr>rank = 6, file = 4\<rparr> Black,
        at copy \<lparr>rank = 5, file = 3\<rparr>,
        map_option (\<lambda>ms. plainMove \<lparr>rank = 5, file = 3\<rparr> \<lparr>rank = 6, file = 4\<rparr> \<in> set ms)
          (legalMoves copy Black None noRights))) =
   (Some True, Some \<lparr>rank = 6, file = 4\<rparr>, False, Some False,
    Some \<lparr>type = Pawn, color = Black\<rparr>, Some True)"
  by code_simp

lemma castleIntoPawn_eval:
  "map_option (\<lambda>(ok, g').
       (ok, at (board g') \<lparr>rank = 7, file = 6\<rparr>, at (board g') \<lparr>rank = 6, file = 7\<rparr>,
        isSquareAttacked (board castleIntoPawn) \<lparr>rank = 7, file = 6\<rparr> Black,
        map_option (\<lambda>ms. \<lparr>from = \<lparr>rank = 7, file = 4\<rparr>, to = \<lparr>rank = 7, file = 6\<rparr>,
                            promotion = None, en_passant = False, castling = True\<rparr> \<in> set ms)
          (legalMoves (board castleIntoPawn) White None (castling_rights castleIntoPawn)),
        map_option (\<lambda>ms. plainMove \<lparr>rank = 6, file = 7\<rparr> \<lparr>rank = 7, file = 6\<rparr> \<in> set ms)
          (legalMoves (board g') (side_to_move g') (last_move g') (castling_rights g'))))
     (makeMove castleIntoPawn (plainMove \<lparr>rank = 7, file = 4\<rparr> \<lparr>rank = 7, file = 6\<rparr>)) =
   Some (True, Some \<lparr>type = King, color = White\<rparr>, Some \<lparr>type = Pawn, color = Black\<rparr>,
         Some False, Some True, Some True)"
  by code_simp

lemma kingCaptureGame_played:
  "map_option (\<lambda>(oks, g). (oks, black_kingside (castling_rights g),
                 black_queenside (castling_rights g), findKing (board g) Black,
                 at (board g) \<lparr>rank = 0, file = 4\<rparr>))
     (makeMoves (newGame freshSession) kingCaptureGame) =
   Some ([True, True, True, True, True, True, True, True, True], True, True, None,
         Some \<lparr>type = Pawn, color = White\<rparr>)"
  by code_simp

section \<open>Rooks and kings at home while a castling right is held\<close>

lemma homeRank_neq: "c \<noteq> c' \<Longrightarrow> homeRank c \<noteq> homeRank c'"
  by (cases c; cases c') (simp_all add: homeRank_def)

lemma homeInvariant_step:
  assumes inv: "homeInvariant c g"
    and ms: "legalMoves (board g) (side_to_move g) (last_move g) (castling_rights g) = Some ms"
    and m: "m \<in> set ms"
    and g': "g' = (updateCastlingRights (handleSpecialMoves g m) m)
               \<lparr>last_move := Some m, side_to_move := opponent (side_to_move g)\<rparr>"
  shows "homeInvariant c g'"
proof -
  let ?side = "side_to_move g"
  let ?b = "board g"
  let ?b' = "board (handleSpecialMoves g m)"
  let ?km = "pieceIs (at ?b (from m)) King ?side"
  have gen: "genuine ?b ?side (last_move g) (castling_rights g) m"
    by (rule legal_move_genuine[OF ms m])
  from genuineD(4)[OF gen] obtain p where p: "at ?b (from m) = Some p" "color p = ?side"
    by blast
  have b': "board g' = ?b'" unfolding g' by (rule board_after_makeMove)
  have cr': "castling_rights g' = castling_rights (updateCastlingRights (handleSpecialMoves g m) m)"
    unfolding g' by simp
  note ra = rights_after_move[OF gen, of c, folded cr']
  have rook: "pieceIs (at ?b' \<lparr>rank = homeRank c, file = f\<rparr>) Rook c"
    if held: "pieceIs (at ?b \<lparr>rank = homeRank c, file = f\<rparr>) Rook c"
      and nk: "\<not> (?km \<and> ?side = c)"
      and nf: "from m \<noteq> \<lparr>rank = homeRank c, file = f\<rparr>"
      and nt: "to m \<noteq> \<lparr>rank = homeRank c, file = f\<rparr>" for f
  proof -
    let ?X = "\<lparr>rank = homeRank c, file = f\<rparr>"
    have ep: "en_passant m \<longrightarrow> ?X \<noteq> \<lparr>rank = rank (from m), file = file (to m)\<rparr>"
    proof
      assume "en_passant m"
      from enPassantCondition_squares(3)[OF genuine_en_passant(3)[OF gen this]] held
      show "?X \<noteq> \<lparr>rank = rank (from m), file = file (to m)\<rparr>"
        by (auto simp: pieceIs_def split: option.splits)
    qed
    have ca: "castling m \<longrightarrow> rank ?X \<noteq> rank (from m)"
    proof
      assume c: "castling m"
      from genuine_castling(2,3)[OF gen c] nk have "?side \<noteq> c" "rank (from m) = homeRank ?side"
        by auto
      then show "rank ?X \<noteq> rank (from m)" using homeRank_neq[of c ?side] by auto
    qed
    have "at ?b' ?X = at ?b ?X"
      by (rule handleSpecialMoves_untouched) (use nf nt ep ca in auto)
    with held show ?thesis by simp
  qed
  have king: "sq = \<lparr>rank = homeRank c, file = 4\<rparr>"
    if old: "\<forall>sq. isValid sq \<and> pieceIs (at ?b sq) King c \<longrightarrow> sq = \<lparr>rank = homeRank c, file = 4\<rparr>"
      and nk: "\<not> (?km \<and> ?side = c)"
      and sq: "isValid sq" "pieceIs (at ?b' sq) King c" for sq
  proof -
    from sq(2) obtain q where q: "at ?b' sq = Some q" "type q = King" "color q = c"
      by (auto simp: pieceIs_def split: option.splits)
    from handleSpecialMoves_origin[OF gen q(1)]
    consider "sq = to m \<and> at ?b (from m) = Some q"
      | "sq \<noteq> from m \<and> sq \<noteq> to m \<and> at ?b sq = Some q"
      | "castling m \<and> type q = Rook \<and> color q = ?side" by blast
    then show ?thesis
    proof cases
      case 1
      with p q have "?km \<and> ?side = c" by (simp add: pieceIs_def)
      with nk show ?thesis by blast
    next
      case 2
      with q have "pieceIs (at ?b sq) King c" by (simp add: pieceIs_def)
      with old sq(1) show ?thesis by blast
    next
      case 3
      with q show ?thesis by simp
    qed
  qed
  show ?thesis
    unfolding homeInvariant_def b' ra
    using inv rook king unfolding homeInvariant_def by blast
qed

lemma homeInvariant_newGame: "homeInvariant c (newGame g)"
proof -
  have b: "board (newGame g) = setupInitialPosition (\<lambda>cell. None)"
    by (simp add: newGame_def reset_def clear_def)
  from initial_homes have
    "\<forall>sq. isValid sq \<longrightarrow>
        (pieceIs (at (setupInitialPosition (\<lambda>cell. None)) sq) King White \<longrightarrow> sq = \<lparr>rank = 7, file = 4\<rparr>) \<and>
        (pieceIs (at (setupInitialPosition (\<lambda>cell. None)) sq) King Black \<longrightarrow> sq = \<lparr>rank = 0, file = 4\<rparr>)"
    by (simp add: list_all_iff set_allSquares)
  with initial_homes show ?thesis
    unfolding homeInvariant_def b by (cases c) (auto simp: homeRank_def)
qed

lemma reachable_homeInvariant: "reachable g \<Longrightarrow> homeInvariant c g"
proof (induction rule: reachable.induct)
  case (start g)
  show ?case by (rule homeInvariant_newGame)
next
  case (step g move ok g')
  from makeMove_SomeD[OF step.hyps(2)] show ?case
  proof
    assume "\<not> ok \<and> g' = g"
    with step.IH show ?thesis by simp
  next
    assume "\<exists>ms m. ok \<and> legalMoves (board g) (side_to_move g) (last_move g) (castling_rights g) = Some ms \<and>
        m \<in> set ms \<and> from m = from move \<and> to m = to move \<and>
        g' = (updateCastlingRights (handleSpecialMoves g m) m)
               \<lparr>last_move := Some m, side_to_move := opponent (side_to_move g)\<rparr>"
    then obtain ms m where
      "legalMoves (board g) (side_to_move g) (last_move g) (castling_rights g) = Some ms"
      "m \<in> set ms"
      "g' = (updateCastlingRights (handleSpecialMoves g m) m)
               \<lparr>last_move := Some m, side_to_move := opponent (side_to_move g)\<rparr>"
      by blast
    from homeInvariant_step[OF step.IH this] show ?thesis .
  qed
qed

section \<open>The claims\<close>

text \<open>What the filter guarantees. For every board, side to move, last move and castling
  rights, \<open>Rules::legalMoves\<close> returns a list, and for every move \<open>m\<close> of it: on the copy of
  the board on which the piece was moved from \<open>m.from\<close> to \<open>m.to\<close> and, when
  \<open>m.en_passant\<close> is set, the square (\<open>m.from.rank\<close>, \<open>m.to.file\<close>) was cleared,
  \<open>findKing\<close> finds a king of the moving side, and the engine's \<open>isSquareAttacked\<close> answers
  false for its square and the opposing colour.\<close>

lemma legalMoves_pass_filter:
  "\<exists>ms. legalMoves b side lmo cr = Some ms \<and>
     (\<forall>m\<in>set ms.
        let copy0 = movePiece b m;
            copy = (if en_passant m
                    then clearSquare copy0 \<lparr>rank = rank (from m), file = file (to m)\<rparr>
                    else copy0)
        in \<exists>king_sq. findKing copy side = Some king_sq \<and>
             isValid king_sq \<and> pieceIs (at copy king_sq) King side \<and>
             isSquareAttacked copy king_sq (opponent side) = Some False)"
proof -
  obtain ms where ms: "legalMoves b side lmo cr = Some ms"
    and g: "\<forall>m\<in>set ms. genuine b side lmo cr m"
    using legalMoves_genuine by blast
  have "\<exists>king_sq. findKing copy side = Some king_sq \<and>
             isValid king_sq \<and> pieceIs (at copy king_sq) King side \<and>
             isSquareAttacked copy king_sq (opponent side) = Some False"
    if m: "m \<in> set ms"
      and copy: "copy = (if en_passant m
                    then clearSquare (movePiece b m) \<lparr>rank = rank (from m), file = file (to m)\<rparr>
                    else movePiece b m)" for m copy
  proof -
    from g m have "isMoveLegal b m side = Some True" by (simp add: genuine_def)
    then obtain k where k: "findKing copy side = Some k"
      and a: "map_option Not (isSquareAttacked copy k (opponent side)) = Some True"
      unfolding isMoveLegal_def Let_def copy by (auto split: option.splits)
    from a have "isSquareAttacked copy k (opponent side) = Some False" by auto
    with k findKing_SomeD[OF k] show ?thesis by simp
  qed
  with ms show ?thesis by (simp add: Let_def)
qed

lemma legalMoves_pass_filter_example:
  "\<exists>ms. legalMoves (reset emptyBoard) White None
            allRights = Some ms \<and>
        plainMove \<lparr>rank = 6, file = 4\<rparr> \<lparr>rank = 4, file = 4\<rparr> \<in> set ms \<and>
        (\<exists>king_sq. findKing (movePiece (reset emptyBoard) (plainMove \<lparr>rank = 6, file = 4\<rparr> \<lparr>rank = 4, file = 4\<rparr>)) White = Some king_sq \<and>
           isSquareAttacked (movePiece (reset emptyBoard) (plainMove \<lparr>rank = 6, file = 4\<rparr> \<lparr>rank = 4, file = 4\<rparr>)) king_sq Black = Some False)"
  using legalMoves_pass_filter[of "reset emptyBoard" White None allRights]
  by (simp add: initial_legalMoves initialMoves_def Let_def opponent_def plainMove_def) blast

text \<open>Claim C1. The claim says that after every move of the list \<open>legalMoves\<close> returns the
  mover's king is not attacked by the opposing colour. With kings on e1 and e8 and a
  black pawn on d3, White to move, the list holds the king move e1-e2. On the board
  after it the engine's \<open>isSquareAttacked\<close> answers false for e2, and yet the list of
  Black's legal moves there holds the pawn's capture d3xe2 of the king: the pawn on d3
  attacks e2. \<open>isAttackedByPawn\<close> looks for the attacking pawn on the rank the pawn would
  move to, while \<open>generatePawnMoves\<close> captures from the rank behind the target.\<close>

theorem legal_move_exposes_king:
  "\<exists>ms copy ms'.
     legalMoves pawnGuardsE2 White None noRights = Some ms \<and>
     plainMove \<lparr>rank = 7, file = 4\<rparr> \<lparr>rank = 6, file = 4\<rparr> \<in> set ms \<and>
     copy = movePiece pawnGuardsE2 (plainMove \<lparr>rank = 7, file = 4\<rparr> \<lparr>rank = 6, file = 4\<rparr>) \<and>
     findKing copy White = Some \<lparr>rank = 6, file = 4\<rparr> \<and>
     isSquareAttacked copy \<lparr>rank = 6, file = 4\<rparr> Black = Some False \<and>
     at copy \<lparr>rank = 5, file = 3\<rparr> = Some \<lparr>type = Pawn, color = Black\<rparr> \<and>
     legalMoves copy Black None noRights = Some ms' \<and>
     plainMove \<lparr>rank = 5, file = 3\<rparr> \<lparr>rank = 6, file = 4\<rparr> \<in> set ms'"
  using pawnGuardsE2_eval by (auto simp: Let_def)

text \<open>Claim C2. When no move of the current legal-move list has the candidate's
  \<open>from\<close> and \<open>to\<close>, \<open>makeMove\<close> returns false and the session after the call is the
  session before it: board, side to move, last move and the four castling rights.\<close>

theorem makeMove_rejects_unchanged:
  assumes "\<not> (\<exists>ms m. legalMoves (board g) (side_to_move g) (last_move g) (castling_rights g) = Some ms \<and>
              m \<in> set ms \<and> from m = from move \<and> to m = to move)"
  shows "makeMove g move = Some (False, g)"
proof -
  obtain ms where ms: "legalMoves (board g) (side_to_move g) (last_move g) (castling_rights g) = Some ms"
    using legalMoves_genuine by blast
  with assms have "find (\<lambda>m. from m = from move \<and> to m = to move) ms = None"
    by (auto simp: find_None_iff)
  with ms show ?thesis by (simp add: makeMove_def)
qed

theorem makeMove_rejects_unchanged_witness:
  "makeMove (newGame \<lparr>board = emptyBoard, side_to_move = Black, last_move = None,
                       castling_rights = allRights\<rparr>)
            (plainMove \<lparr>rank = 6, file = 4\<rparr> \<lparr>rank = 3, file = 4\<rparr>) =
   Some (False, newGame \<lparr>board = emptyBoard, side_to_move = Black, last_move = None,
                          castling_rights = allRights\<rparr>)"
  by (rule makeMove_rejects_unchanged)
     (auto simp add: newGame_def allRights_def[symmetric] initial_legalMoves initialMoves_def plainMove_def)

text \<open>Claim C3. Right after \<open>newGame\<close> the legal moves are 20: 8 pawn moves one rank
  forward, 8 pawn moves two ranks forward, and 4 knight moves, and no other.\<close>

theorem newGame_twenty_moves:
  "\<exists>ms. legalMoves (board (newGame g)) (side_to_move (newGame g)) (last_move (newGame g))
            (castling_rights (newGame g)) = Some ms \<and>
     length ms = 20 \<and>
     length (filter (\<lambda>m. pieceIs (at (board (newGame g)) (from m)) Pawn White \<and>
                          file (to m) = file (from m) \<and> rank (to m) = rank (from m) - 1) ms) = 8 \<and>
     length (filter (\<lambda>m. pieceIs (at (board (newGame g)) (from m)) Pawn White \<and>
                          file (to m) = file (from m) \<and> rank (to m) = rank (from m) - 2) ms) = 8 \<and>
     length (filter (\<lambda>m. pieceIs (at (board (newGame g)) (from m)) Knight White) ms) = 4 \<and>
     length (filter (\<lambda>m. pieceIs (at (board (newGame g)) (from m)) Pawn White \<or>
                          pieceIs (at (board (newGame g)) (from m)) Knight White) ms) = 20"
proof -
  have b: "board (newGame g) = setupInitialPosition (\<lambda>cell. None)"
    by (simp add: newGame_def reset_def clear_def)
  have "legalMoves (board (newGame g)) (side_to_move (newGame g)) (last_move (newGame g))
            (castling_rights (newGame g)) = Some initialMoves"
    using initial_legalMoves[of "board g"] by (simp add: newGame_def allRights_def)
  then show ?thesis unfolding b using initial_counts by blast
qed

text \<open>Claim C4. After a \<open>makeMove\<close> call that returns true, the destination square holds
  a piece of the type (and colour) of the piece that stood on the origin square before
  the call, so a pawn that reaches the last rank is still a pawn; and the call returns
  the same value and leaves the same state whatever the candidate's \<open>promotion\<close> is.\<close>

theorem makeMove_keeps_piece_type:
  assumes "makeMove g move = Some (True, g')"
  shows "(\<exists>p p'. at (board g) (from move) = Some p \<and> at (board g') (to move) = Some p' \<and>
            type p' = type p \<and> color p' = color p) \<and>
         (\<forall>pr. makeMove g (move\<lparr>promotion := pr\<rparr>) = Some (True, g'))"
proof -
  from makeMove_SomeD[OF assms] obtain ms m where
    ms: "legalMoves (board g) (side_to_move g) (last_move g) (castling_rights g) = Some ms"
    and m: "m \<in> set ms" "from m = from move" "to m = to move"
    and g': "g' = (updateCastlingRights (handleSpecialMoves g m) m)
               \<lparr>last_move := Some m, side_to_move := opponent (side_to_move g)\<rparr>"
    by auto
  have gen: "genuine (board g) (side_to_move g) (last_move g) (castling_rights g) m"
    by (rule legal_move_genuine[OF ms m(1)])
  from genuineD(4)[OF gen] obtain p where p: "at (board g) (from m) = Some p" by blast
  have "at (board g') (to m) = Some p"
    unfolding g' board_after_makeMove using handleSpecialMoves_at_to[OF gen] p by simp
  with p m have first: "\<exists>p p'. at (board g) (from move) = Some p \<and>
      at (board g') (to move) = Some p' \<and> type p' = type p \<and> color p' = color p"
    by auto
  have "makeMove g (move\<lparr>promotion := pr\<rparr>) = makeMove g move" for pr
    by (simp add: makeMove_def)
  with assms first show ?thesis by simp
qed

theorem makeMove_keeps_piece_type_witness:
  "\<exists>g'. makeMove promotionReady
           \<lparr>from = \<lparr>rank = 1, file = 0\<rparr>, to = \<lparr>rank = 0, file = 0\<rparr>,
            promotion = Some Queen, en_passant = False, castling = False\<rparr> = Some (True, g') \<and>
         at (board g') \<lparr>rank = 0, file = 0\<rparr> = Some \<lparr>type = Pawn, color = White\<rparr> \<and>
         makeMove promotionReady
           \<lparr>from = \<lparr>rank = 1, file = 0\<rparr>, to = \<lparr>rank = 0, file = 0\<rparr>,
            promotion = Some Knight, en_passant = False, castling = False\<rparr> = Some (True, g')"
proof -
  let ?mv = "\<lparr>from = \<lparr>rank = 1, file = 0\<rparr>, to = \<lparr>rank = 0, file = 0\<rparr>,
            promotion = Some Queen, en_passant = False, castling = False\<rparr>"
  from promotionReady_accepts obtain g' where ok: "makeMove promotionReady ?mv = Some (True, g')"
    by auto
  have p: "at (board promotionReady) (from ?mv) = Some \<lparr>type = Pawn, color = White\<rparr>"
    by (simp add: promotionReady_def at_def put_def)
  from makeMove_keeps_piece_type[OF ok] p
  have "at (board g') \<lparr>rank = 0, file = 0\<rparr> = Some \<lparr>type = Pawn, color = White\<rparr>"
    and "makeMove promotionReady (?mv\<lparr>promotion := Some Knight\<rparr>) = Some (True, g')"
    by auto
  with ok show ?thesis by simp
qed

text \<open>Claim C5. The list that \<open>legalMoves\<close> returns holds a move flagged en passant from
  \<open>fromSq\<close> to \<open>toSq\<close> if and only if: \<open>fromSq\<close> is a square of the board holding a
  pawn of the side to move; a last move exists; the piece on its \<open>to\<close> square is a pawn
  of the opponent; its \<open>from\<close> and \<open>to\<close> are two ranks apart; \<open>fromSq\<close> is on the rank
  of that \<open>to\<close> square, one file beside it; \<open>toSq\<close> is on that \<open>to\<close> square's file, on
  the rank strictly between the last move's two ranks; and the move passes
  \<open>isMoveLegal\<close>, the king-safety filter.\<close>

theorem en_passant_iff:
  "\<exists>ms. legalMoves b side lmo cr = Some ms \<and>
     (\<forall>fromSq toSq.
        (\<exists>m\<in>set ms. en_passant m \<and> from m = fromSq \<and> to m = toSq) =
        (isValid fromSq \<and> pieceIs (at b fromSq) Pawn side \<and>
         (\<exists>lm. lmo = Some lm \<and>
            pieceIs (at b (to lm)) Pawn (opponent side) \<and>
            abs (rank (from lm) - rank (to lm)) = 2 \<and>
            rank fromSq = rank (to lm) \<and> abs (file fromSq - file (to lm)) = 1 \<and>
            file toSq = file (to lm) \<and>
            min (rank (from lm)) (rank (to lm)) < rank toSq \<and>
            rank toSq < max (rank (from lm)) (rank (to lm))) \<and>
         isMoveLegal b \<lparr>from = fromSq, to = toSq, promotion = None,
                         en_passant = True, castling = False\<rparr> side = Some True))"
proof -
  obtain ms where ms: "legalMoves b side lmo cr = Some ms"
    and g: "\<forall>m\<in>set ms. genuine b side lmo cr m"
    using legalMoves_genuine by blast
  have "(\<exists>m\<in>set ms. en_passant m \<and> from m = fromSq \<and> to m = toSq) =
        (isValid fromSq \<and> pieceIs (at b fromSq) Pawn side \<and>
         enPassantCondition b side lmo fromSq toSq \<and>
         isMoveLegal b \<lparr>from = fromSq, to = toSq, promotion = None,
                         en_passant = True, castling = False\<rparr> side = Some True)"
    (is "?L = ?R") for fromSq toSq
  proof
    assume ?L
    then obtain m where m: "m \<in> set ms" "en_passant m" "from m = fromSq" "to m = toSq" by blast
    with g have gm: "genuine b side lmo cr m" by blast
    have "m = \<lparr>from = fromSq, to = toSq, promotion = None, en_passant = True, castling = False\<rparr>"
      by (rule Move.equality) (use m(2-4) genuineD(2)[OF gm] genuine_en_passant(1)[OF gm m(2)] in simp_all)
    with genuineD(1,3)[OF gm] genuine_en_passant(2,3)[OF gm m(2)] m show ?R by simp
  next
    assume r: ?R
    then obtain lm where lm: "lmo = Some lm"
      and c: "pieceIs (at b (to lm)) Pawn (opponent side)"
        "abs (rank (from lm) - rank (to lm)) = 2"
        "rank fromSq = rank (to lm)" "abs (file fromSq - file (to lm)) = 1"
        "file toSq = file (to lm)"
        "min (rank (from lm)) (rank (to lm)) < rank toSq \<and>
         rank toSq < max (rank (from lm)) (rank (to lm))"
      by (auto simp: enPassantCondition_def split: option.splits)
    from c(6) passed_rank_between[OF c(2), of "rank toSq"]
    have "rank toSq = (rank (from lm) + rank (to lm)) sdiv 2" by simp
    with c(5) have toSq: "toSq = \<lparr>rank = (rank (from lm) + rank (to lm)) sdiv 2, file = file (to lm)\<rparr>"
      by (simp add: square_eq_iff)
    let ?ep = "\<lparr>from = fromSq, to = toSq, promotion = None, en_passant = True, castling = False\<rparr>"
    from r have legal: "isMoveLegal b ?ep side = Some True" and pawn: "pieceIs (at b fromSq) Pawn side"
      and v: "isValid fromSq" by simp_all
    have gen: "\<exists>ms'. generateFor ms0 b side lmo cr fromSq = Some ms' \<and> ?ep \<in> set ms'" for ms0
      using generateFor_pawn_complete[OF pawn lm c(1-4), of ms0 cr] legal unfolding toSq by simp
    have "\<exists>ms'. legalMoves_loop [] b side lmo cr allSquares = Some ms' \<and> ?ep \<in> set ms'"
      by (rule legalMoves_loop_complete) (use v gen in \<open>simp_all add: set_allSquares\<close>)
    with ms have "?ep \<in> set ms" by (simp add: legalMoves_def)
    then show ?L by (intro bexI[of _ ?ep]) simp_all
  qed
  with ms show ?thesis unfolding enPassantCondition_def by (auto split: option.splits)
qed

theorem en_passant_iff_witness:
  "\<exists>ms. legalMoves enPassantReady White
           (Some (plainMove \<lparr>rank = 1, file = 3\<rparr> \<lparr>rank = 3, file = 3\<rparr>)) noRights = Some ms \<and>
     (\<exists>m\<in>set ms. en_passant m \<and> from m = \<lparr>rank = 3, file = 4\<rparr> \<and> to m = \<lparr>rank = 2, file = 3\<rparr>) \<and>
     \<not> (\<exists>m\<in>set ms. en_passant m \<and> from m = \<lparr>rank = 3, file = 4\<rparr> \<and> to m = \<lparr>rank = 2, file = 5\<rparr>)"
proof -
  let ?lm = "plainMove \<lparr>rank = 1, file = 3\<rparr> \<lparr>rank = 3, file = 3\<rparr>"
  from en_passant_iff[of enPassantReady White "Some ?lm" noRights]
  obtain ms where ms: "legalMoves enPassantReady White (Some ?lm) noRights = Some ms"
    and iff: "\<And>fromSq toSq.
        (\<exists>m\<in>set ms. en_passant m \<and> from m = fromSq \<and> to m = toSq) =
        (isValid fromSq \<and> pieceIs (at enPassantReady fromSq) Pawn White \<and>
         (\<exists>lm. Some ?lm = Some lm \<and>
            pieceIs (at enPassantReady (to lm)) Pawn (opponent White) \<and>
            abs (rank (from lm) - rank (to lm)) = 2 \<and>
            rank fromSq = rank (to lm) \<and> abs (file fromSq - file (to lm)) = 1 \<and>
            file toSq = file (to lm) \<and>
            min (rank (from lm)) (rank (to lm)) < rank toSq \<and>
            rank toSq < max (rank (from lm)) (rank (to lm))) \<and>
         isMoveLegal enPassantReady \<lparr>from = fromSq, to = toSq, promotion = None,
                         en_passant = True, castling = False\<rparr> White = Some True)"
    by blast
  have yes: "\<exists>m\<in>set ms. en_passant m \<and> from m = \<lparr>rank = 3, file = 4\<rparr> \<and> to m = \<lparr>rank = 2, file = 3\<rparr>"
    unfolding iff using enPassantReady_legal
    by (simp add: enPassantReady_def emptyBoard_def at_def put_def pieceIs_def plainMove_def
        isValid_def kBoardSize_def opponent_def)
  have no: "\<not> (\<exists>m\<in>set ms. en_passant m \<and> from m = \<lparr>rank = 3, file = 4\<rparr> \<and> to m = \<lparr>rank = 2, file = 5\<rparr>)"
    unfolding iff by (simp add: plainMove_def)
  from ms yes no show ?thesis by blast
qed

text \<open>What the castling branch checks. In the list that \<open>legalMoves\<close> returns, a move
  flagged as castling whose destination is on the g-file occurs only if: it goes from the
  e-file square of the side's home rank to the g-file square of that rank; the side's
  kingside right is held; the side's king stands on that e-file square and
  \<open>isSquareAttacked\<close> answers false for it; a rook of the side stands on the h-file
  square of the home rank; the f-file and g-file squares of the home rank are empty; and
  \<open>isSquareAttacked\<close> answers false for both of them.\<close>

lemma kingside_castling_checks:
  "\<exists>ms. legalMoves b side lmo cr = Some ms \<and>
     (\<forall>m\<in>set ms. castling m \<and> file (to m) = 6 \<longrightarrow>
        (let home = (if side = White then 7 else 0) in
           from m = \<lparr>rank = home, file = 4\<rparr> \<and> to m = \<lparr>rank = home, file = 6\<rparr> \<and>
           (if side = White then white_kingside cr else black_kingside cr) \<and>
           pieceIs (at b \<lparr>rank = home, file = 4\<rparr>) King side \<and>
           isSquareAttacked b \<lparr>rank = home, file = 4\<rparr> (opponent side) = Some False \<and>
           pieceIs (at b \<lparr>rank = home, file = 7\<rparr>) Rook side \<and>
           at b \<lparr>rank = home, file = 5\<rparr> = None \<and>
           at b \<lparr>rank = home, file = 6\<rparr> = None \<and>
           isSquareAttacked b \<lparr>rank = home, file = 5\<rparr> (opponent side) = Some False \<and>
           isSquareAttacked b \<lparr>rank = home, file = 6\<rparr> (opponent side) = Some False))"
proof -
  obtain ms where ms: "legalMoves b side lmo cr = Some ms"
    and g: "\<forall>m\<in>set ms. genuine b side lmo cr m"
    using legalMoves_genuine by blast
  have "from m = \<lparr>rank = homeRank side, file = 4\<rparr> \<and> to m = \<lparr>rank = homeRank side, file = 6\<rparr> \<and>
      kingsideCondition b side cr"
    if "m \<in> set ms" "castling m" "file (to m) = 6" for m
  proof -
    from g that(1) have "genuine b side lmo cr m" by blast
    from genuine_castling(3,4)[OF this that(2)] that(3) show ?thesis by auto
  qed
  then show ?thesis
    using ms unfolding kingsideCondition_def homeRank_def Let_def by blast
qed

lemma kingside_castling_checks_example:
  "\<exists>ms. legalMoves kingsAndRook White None
           \<lparr>white_kingside = True, white_queenside = False, black_kingside = False, black_queenside = False\<rparr> = Some ms \<and>
     \<lparr>from = \<lparr>rank = 7, file = 4\<rparr>, to = \<lparr>rank = 7, file = 6\<rparr>,
       promotion = None, en_passant = False, castling = True\<rparr> \<in> set ms \<and>
     pieceIs (at kingsAndRook \<lparr>rank = 7, file = 4\<rparr>) King White \<and>
     isSquareAttacked kingsAndRook \<lparr>rank = 7, file = 4\<rparr> Black = Some False \<and>
     pieceIs (at kingsAndRook \<lparr>rank = 7, file = 7\<rparr>) Rook White \<and>
     at kingsAndRook \<lparr>rank = 7, file = 5\<rparr> = None \<and>
     at kingsAndRook \<lparr>rank = 7, file = 6\<rparr> = None \<and>
     isSquareAttacked kingsAndRook \<lparr>rank = 7, file = 5\<rparr> Black = Some False \<and>
     isSquareAttacked kingsAndRook \<lparr>rank = 7, file = 6\<rparr> Black = Some False"
proof -
  let ?cr = "\<lparr>white_kingside = True, white_queenside = False, black_kingside = False, black_queenside = False\<rparr>"
  let ?c = "\<lparr>from = \<lparr>rank = 7, file = 4\<rparr>, to = \<lparr>rank = 7, file = 6\<rparr>,
       promotion = None, en_passant = False, castling = True\<rparr>"
  from kingside_castling_checks[of kingsAndRook White None ?cr]
  obtain ms where ms: "legalMoves kingsAndRook White None ?cr = Some ms"
    and only_if: "\<forall>m\<in>set ms. castling m \<and> file (to m) = 6 \<longrightarrow>
        (let home = (if White = White then 7 else 0) in
           from m = \<lparr>rank = home, file = 4\<rparr> \<and> to m = \<lparr>rank = home, file = 6\<rparr> \<and>
           (if White = White then white_kingside ?cr else black_kingside ?cr) \<and>
           pieceIs (at kingsAndRook \<lparr>rank = home, file = 4\<rparr>) King White \<and>
           isSquareAttacked kingsAndRook \<lparr>rank = home, file = 4\<rparr> (opponent White) = Some False \<and>
           pieceIs (at kingsAndRook \<lparr>rank = home, file = 7\<rparr>) Rook White \<and>
           at kingsAndRook \<lparr>rank = home, file = 5\<rparr> = None \<and>
           at kingsAndRook \<lparr>rank = home, file = 6\<rparr> = None \<and>
           isSquareAttacked kingsAndRook \<lparr>rank = home, file = 5\<rparr> (opponent White) = Some False \<and>
           isSquareAttacked kingsAndRook \<lparr>rank = home, file = 6\<rparr> (opponent White) = Some False)"
    by blast
  from kingsAndRook_moves ms have "filter castling ms = [?c]" by simp
  then have "?c \<in> set (filter castling ms)" by simp
  then have mem: "?c \<in> set ms" by simp
  with only_if have "castling ?c \<and> file (to ?c) = 6 \<longrightarrow>
        (let home = (if White = White then 7 else 0) in
           from ?c = \<lparr>rank = home, file = 4\<rparr> \<and> to ?c = \<lparr>rank = home, file = 6\<rparr> \<and>
           (if White = White then white_kingside ?cr else black_kingside ?cr) \<and>
           pieceIs (at kingsAndRook \<lparr>rank = home, file = 4\<rparr>) King White \<and>
           isSquareAttacked kingsAndRook \<lparr>rank = home, file = 4\<rparr> (opponent White) = Some False \<and>
           pieceIs (at kingsAndRook \<lparr>rank = home, file = 7\<rparr>) Rook White \<and>
           at kingsAndRook \<lparr>rank = home, file = 5\<rparr> = None \<and>
           at kingsAndRook \<lparr>rank = home, file = 6\<rparr> = None \<and>
           isSquareAttacked kingsAndRook \<lparr>rank = home, file = 5\<rparr> (opponent White) = Some False \<and>
           isSquareAttacked kingsAndRook \<lparr>rank = home, file = 6\<rparr> (opponent White) = Some False)"
    by (rule bspec)
  with ms mem show ?thesis by (simp add: Let_def opponent_def)
qed

text \<open>Claim C6. The claim says that the kingside castling move occurs in the list only if,
  among others, the g-file square of the home rank is not attacked by the opponent. With
  kings on e1 and e8, a white rook on h1 and a black pawn on h2, White to move and
  holding the kingside right, the list holds the castling move, \<open>isSquareAttacked\<close>
  answers false for g1, \<open>makeMove\<close> accepts the move, and Black's legal moves in the
  state reached hold the pawn's capture h2xg1 of the castled king: the pawn on h2 attacks
  g1. The cause is the same lookup of \<open>isAttackedByPawn\<close> on the wrong rank.\<close>

theorem castling_into_pawn_attack:
  "\<exists>ms g' ms'.
     legalMoves (board castleIntoPawn) White None (castling_rights castleIntoPawn) = Some ms \<and>
     \<lparr>from = \<lparr>rank = 7, file = 4\<rparr>, to = \<lparr>rank = 7, file = 6\<rparr>,
       promotion = None, en_passant = False, castling = True\<rparr> \<in> set ms \<and>
     isSquareAttacked (board castleIntoPawn) \<lparr>rank = 7, file = 6\<rparr> Black = Some False \<and>
     makeMove castleIntoPawn (plainMove \<lparr>rank = 7, file = 4\<rparr> \<lparr>rank = 7, file = 6\<rparr>) = Some (True, g') \<and>
     at (board g') \<lparr>rank = 7, file = 6\<rparr> = Some \<lparr>type = King, color = White\<rparr> \<and>
     at (board g') \<lparr>rank = 6, file = 7\<rparr> = Some \<lparr>type = Pawn, color = Black\<rparr> \<and>
     legalMoves (board g') (side_to_move g') (last_move g') (castling_rights g') = Some ms' \<and>
     plainMove \<lparr>rank = 6, file = 7\<rparr> \<lparr>rank = 7, file = 6\<rparr> \<in> set ms'"
  using castleIntoPawn_eval by (auto simp: Let_def)

text \<open>Claim C7. In a state reached from \<open>newGame\<close> by \<open>makeMove\<close> calls, a call that
  returns true changes the castling rights as follows, for either colour \<open>c\<close>. The
  kingside right of \<open>c\<close> is held afterwards exactly when it was held before, the moved
  piece is not a king of the mover \<open>c\<close>, and the move neither leaves from nor arrives on
  the h-file corner of the home rank of \<open>c\<close>; likewise the queenside right and the
  a-file corner. So a king move revokes both rights of the mover, a move from or to a
  corner revokes that corner's right, and nothing else clears a right. While a right is
  held, a rook of \<open>c\<close> stands on its corner, so that the move from the corner is the rook
  leaving and the move to the corner lands on the rook; and a king of \<open>c\<close> that moves
  while \<open>c\<close> holds a right leaves from the e-file square of its home rank.\<close>

theorem castling_rights_update:
  assumes "reachable g" and "makeMove g move = Some (True, g')"
  shows "\<forall>c.
     (kingsideRight c (castling_rights g') =
        (kingsideRight c (castling_rights g) \<and>
         \<not> (pieceIs (at (board g) (from move)) King (side_to_move g) \<and> side_to_move g = c) \<and>
         from move \<noteq> \<lparr>rank = homeRank c, file = 7\<rparr> \<and>
         to move \<noteq> \<lparr>rank = homeRank c, file = 7\<rparr>)) \<and>
     (queensideRight c (castling_rights g') =
        (queensideRight c (castling_rights g) \<and>
         \<not> (pieceIs (at (board g) (from move)) King (side_to_move g) \<and> side_to_move g = c) \<and>
         from move \<noteq> \<lparr>rank = homeRank c, file = 0\<rparr> \<and>
         to move \<noteq> \<lparr>rank = homeRank c, file = 0\<rparr>)) \<and>
     (kingsideRight c (castling_rights g) \<longrightarrow>
        pieceIs (at (board g) \<lparr>rank = homeRank c, file = 7\<rparr>) Rook c) \<and>
     (queensideRight c (castling_rights g) \<longrightarrow>
        pieceIs (at (board g) \<lparr>rank = homeRank c, file = 0\<rparr>) Rook c) \<and>
     ((kingsideRight c (castling_rights g) \<or> queensideRight c (castling_rights g)) \<and>
      pieceIs (at (board g) (from move)) King c \<longrightarrow>
        from move = \<lparr>rank = homeRank c, file = 4\<rparr>)"
proof
  fix c
  from makeMove_SomeD[OF assms(2)] obtain ms m where
    ms: "legalMoves (board g) (side_to_move g) (last_move g) (castling_rights g) = Some ms"
    and m: "m \<in> set ms" "from m = from move" "to m = to move"
    and g': "g' = (updateCastlingRights (handleSpecialMoves g m) m)
               \<lparr>last_move := Some m, side_to_move := opponent (side_to_move g)\<rparr>"
    by auto
  have gen: "genuine (board g) (side_to_move g) (last_move g) (castling_rights g) m"
    by (rule legal_move_genuine[OF ms m(1)])
  have cr': "castling_rights g' = castling_rights (updateCastlingRights (handleSpecialMoves g m) m)"
    unfolding g' by simp
  note ra = rights_after_move[OF gen, of c, folded cr', unfolded m]
  note inv = reachable_homeInvariant[OF assms(1), of c, unfolded homeInvariant_def]
  have "isValid (from move)" using genuineD(1)[OF gen] m by simp
  with inv ra show "(kingsideRight c (castling_rights g') =
        (kingsideRight c (castling_rights g) \<and>
         \<not> (pieceIs (at (board g) (from move)) King (side_to_move g) \<and> side_to_move g = c) \<and>
         from move \<noteq> \<lparr>rank = homeRank c, file = 7\<rparr> \<and>
         to move \<noteq> \<lparr>rank = homeRank c, file = 7\<rparr>)) \<and>
     (queensideRight c (castling_rights g') =
        (queensideRight c (castling_rights g) \<and>
         \<not> (pieceIs (at (board g) (from move)) King (side_to_move g) \<and> side_to_move g = c) \<and>
         from move \<noteq> \<lparr>rank = homeRank c, file = 0\<rparr> \<and>
         to move \<noteq> \<lparr>rank = homeRank c, file = 0\<rparr>)) \<and>
     (kingsideRight c (castling_rights g) \<longrightarrow>
        pieceIs (at (board g) \<lparr>rank = homeRank c, file = 7\<rparr>) Rook c) \<and>
     (queensideRight c (castling_rights g) \<longrightarrow>
        pieceIs (at (board g) \<lparr>rank = homeRank c, file = 0\<rparr>) Rook c) \<and>
     ((kingsideRight c (castling_rights g) \<or> queensideRight c (castling_rights g)) \<and>
      pieceIs (at (board g) (from move)) King c \<longrightarrow>
        from move = \<lparr>rank = homeRank c, file = 4\<rparr>)"
    by blast
qed

theorem castling_rights_update_witness:
  "\<exists>oks g g'.
     makeMoves (newGame freshSession) kingStepOpening = Some (oks, g) \<and>
     oks = [True, True] \<and>
     makeMove g (plainMove \<lparr>rank = 7, file = 4\<rparr> \<lparr>rank = 6, file = 4\<rparr>) = Some (True, g') \<and>
     white_kingside (castling_rights g) \<and> white_queenside (castling_rights g) \<and>
     \<not> white_kingside (castling_rights g') \<and> \<not> white_queenside (castling_rights g') \<and>
     black_kingside (castling_rights g') \<and> black_queenside (castling_rights g') \<and>
     pieceIs (at (board g) \<lparr>rank = 7, file = 7\<rparr>) Rook White \<and>
     pieceIs (at (board g) \<lparr>rank = 7, file = 0\<rparr>) Rook White"
proof -
  let ?mv = "plainMove \<lparr>rank = 7, file = 4\<rparr> \<lparr>rank = 6, file = 4\<rparr>"
  from kingStepOpening_played obtain oks g ok g' where
    played: "makeMoves (newGame freshSession) kingStepOpening = Some (oks, g)"
    and mv: "makeMove g ?mv = Some (ok, g')"
    and res: "oks = [True, True]" "ok" "side_to_move g = White"
      "castling_rights g = \<lparr>white_kingside = True, white_queenside = True,
          black_kingside = True, black_queenside = True\<rparr>"
      "at (board g) \<lparr>rank = 7, file = 4\<rparr> = Some \<lparr>type = King, color = White\<rparr>"
    by (auto simp: bind_eq_Some_conv)
  from mv res(2) have ok: "makeMove g ?mv = Some (True, g')" by simp
  have r: "reachable g"
    by (rule makeMoves_reachable[OF reachable.start played])
  have km: "pieceIs (at (board g) (from ?mv)) King (side_to_move g)"
    using res(3,5) by (simp add: plainMove_def pieceIs_def)
  from castling_rights_update[OF r ok, THEN spec, of White]
    castling_rights_update[OF r ok, THEN spec, of Black] km
  have "\<not> white_kingside (castling_rights g') \<and> \<not> white_queenside (castling_rights g') \<and>
     black_kingside (castling_rights g') \<and> black_queenside (castling_rights g') \<and>
     pieceIs (at (board g) \<lparr>rank = 7, file = 7\<rparr>) Rook White \<and>
     pieceIs (at (board g) \<lparr>rank = 7, file = 0\<rparr>) Rook White"
    by (simp add: res(3,4) kingsideRight_def queensideRight_def homeRank_def plainMove_def)
  with played ok res show ?thesis by simp
qed

text \<open>Claim C8. Over any sequence of \<open>makeMove\<close> calls on one session, from any state,
  every call returns, and a castling right that is held after the sequence was held
  before it, whatever the calls returned: a right that is false stays false. A single
  call is the sequence of length one.\<close>

theorem castling_rights_never_return:
  "\<exists>oks g'. makeMoves g moves = Some (oks, g') \<and> length oks = length moves \<and>
     (white_kingside (castling_rights g') \<longrightarrow> white_kingside (castling_rights g)) \<and>
     (white_queenside (castling_rights g') \<longrightarrow> white_queenside (castling_rights g)) \<and>
     (black_kingside (castling_rights g') \<longrightarrow> black_kingside (castling_rights g)) \<and>
     (black_queenside (castling_rights g') \<longrightarrow> black_queenside (castling_rights g))"
proof (induction moves arbitrary: g)
  case Nil
  show ?case by simp
next
  case (Cons move rest)
  obtain ok g1 where step: "makeMove g move = Some (ok, g1)"
    using makeMove_total by blast
  from Cons.IH[of g1] obtain oks g' where rest: "makeMoves g1 rest = Some (oks, g')"
    and len: "length oks = length rest"
    and mono: "white_kingside (castling_rights g') \<longrightarrow> white_kingside (castling_rights g1)"
      "white_queenside (castling_rights g') \<longrightarrow> white_queenside (castling_rights g1)"
      "black_kingside (castling_rights g') \<longrightarrow> black_kingside (castling_rights g1)"
      "black_queenside (castling_rights g') \<longrightarrow> black_queenside (castling_rights g1)"
    by blast
  have "makeMoves g (move # rest) = Some (ok # oks, g')"
    using step rest by simp
  with len mono makeMove_rights_mono[OF step] show ?case by auto
qed

theorem castling_rights_never_return_witness:
  "\<exists>oks g'.
     makeMoves \<lparr>board = kingsAndRook, side_to_move = White, last_move = None,
                 castling_rights = \<lparr>white_kingside = True, white_queenside = False,
                                     black_kingside = False, black_queenside = False\<rparr>\<rparr>
        [plainMove \<lparr>rank = 7, file = 7\<rparr> \<lparr>rank = 7, file = 6\<rparr>] = Some (oks, g') \<and>
     oks = [True] \<and> \<not> white_kingside (castling_rights g') \<and>
     \<not> white_queenside (castling_rights g') \<and> \<not> black_kingside (castling_rights g') \<and>
     \<not> black_queenside (castling_rights g')"
  using castling_rights_never_return[of
      "\<lparr>board = kingsAndRook, side_to_move = White, last_move = None,
        castling_rights = \<lparr>white_kingside = True, white_queenside = False,
                            black_kingside = False, black_queenside = False\<rparr>\<rparr>"
      "[plainMove \<lparr>rank = 7, file = 7\<rparr> \<lparr>rank = 7, file = 6\<rparr>]"]
    kingsAndRook_rook_move
  by auto

text \<open>Claim C9. On a board with no king of the queried side on any of its 64 squares,
  \<open>isCheck\<close> returns false and \<open>legalMoves\<close> returns the empty list.\<close>

theorem no_king_safe_defaults:
  assumes noking: "\<forall>sq. isValid sq \<longrightarrow> \<not> pieceIs (at b sq) King side"
  shows "isCheck b side = Some False \<and> legalMoves b side lmo cr = Some []"
proof -
  from noking have fk: "findKing b side = None" by (simp add: findKing_None_iff)
  obtain ms where ms: "legalMoves b side lmo cr = Some ms"
    and g: "\<forall>m\<in>set ms. genuine b side lmo cr m"
    using legalMoves_genuine by blast
  have False if m: "m \<in> set ms" for m
  proof -
    define copy where "copy = (if en_passant m
        then clearSquare (movePiece b m) \<lparr>rank = rank (from m), file = file (to m)\<rparr>
        else movePiece b m)"
    from g m have gm: "genuine b side lmo cr m" by blast
    then have legal: "isMoveLegal b m side = Some True" and vf: "isValid (from m)"
      by (simp_all add: genuine_def)
    from legal obtain k where k: "findKing copy side = Some k"
      unfolding isMoveLegal_def Let_def copy_def by (auto split: option.splits)
    from findKing_SomeD[OF k] have vk: "isValid k" and pk: "pieceIs (at copy k) King side" by simp_all
    from pk have "pieceIs (at b k) King side \<or> pieceIs (at b (from m)) King side"
      by (auto simp: copy_def at_clearSquare at_movePiece pieceIs_def split: if_splits)
    with noking vk vf show False by blast
  qed
  then have "ms = []" by (cases ms) auto
  with ms fk show ?thesis by (simp add: isCheck_def)
qed

theorem no_king_safe_defaults_witness:
  "isCheck blackKingAndPawn White = Some False \<and>
   legalMoves blackKingAndPawn White None allRights = Some []"
  by (rule no_king_safe_defaults)
     (simp add: blackKingAndPawn_def emptyBoard_def at_def put_def pieceIs_def)

text \<open>Claim C10. The claim says that in every state reached from \<open>newGame\<close> by successful
  \<open>makeMove\<close> calls a held castling right has its rook on the home corner and its king
  on the home square. The nine calls of \<open>kingCaptureGame\<close> (1. e4 Na6 2. e5 Nb8 3. e6 Na6
  4. exd7 Nb8 5. dxe8) all return true: \<open>isAttackedByPawn\<close> looks for the attacking pawn
  on the rank the pawn would move to, not on the rank it captures from, so the check by
  the pawn on d7 is not seen, Black may leave the king where it is, and the pawn takes
  the king. In the state reached Black holds both castling rights, no black king is on
  the board, and e8 holds a white pawn.\<close>

theorem king_captured_rights_held:
  "\<exists>oks g. makeMoves (newGame freshSession) kingCaptureGame = Some (oks, g) \<and>
     oks = [True, True, True, True, True, True, True, True, True] \<and> reachable g \<and>
     black_kingside (castling_rights g) \<and> black_queenside (castling_rights g) \<and>
     findKing (board g) Black = None \<and>
     at (board g) \<lparr>rank = 0, file = 4\<rparr> = Some \<lparr>type = Pawn, color = White\<rparr>"
proof -
  from kingCaptureGame_played obtain oks g where
    played: "makeMoves (newGame freshSession) kingCaptureGame = Some (oks, g)"
    and res: "oks = [True, True, True, True, True, True, True, True, True]"
      "black_kingside (castling_rights g)" "black_queenside (castling_rights g)"
      "findKing (board g) Black = None"
      "at (board g) \<lparr>rank = 0, file = 4\<rparr> = Some \<lparr>type = Pawn, color = White\<rparr>"
    by auto
  have "reachable g"
    by (rule makeMoves_reachable[OF reachable.start played])
  with played res show ?thesis by blast
qed

end
